theory Spec2Isabelle
  imports Main "HOL-Library.Word"
begin

section \<open>Memory model\<close>

text \<open>
  The counters are \<^verbatim>\<open>std::atomic<size_t>\<close>; \<^verbatim>\<open>size_t\<close> is taken to be 64 bits wide, so
  \<open>+\<close> and \<open>-\<close> wrap around as \<^verbatim>\<open>fetch_add\<close> and \<^verbatim>\<open>fetch_sub\<close> do. A pointer is an
  address or \<^verbatim>\<open>nullptr\<close> (\<open>None\<close>).
\<close>

type_synonym size_t = "64 word"
type_synonym addr = nat
type_synonym pointer = "addr option"

text \<open>
  What the virtual members and the deleter do to the outside world is recorded in a log:
  a call of \<^verbatim>\<open>dispose()\<close> on a block, a call of the deleter on a pointer, the in-place
  destructor call of an inline block, a call of \<^verbatim>\<open>destroy()\<close> (\<^verbatim>\<open>delete this\<close>), and a
  member call through a pointer to a block that does not exist. Such a call is undefined
  behaviour in C++ (the code would read and write freed memory); the model gives it no
  meaning beyond the \<open>UseAfterFree\<close> entry, and nothing is claimed about a run whose log
  holds one.
\<close>

datatype event = Dispose addr | Deleter addr | Dtor addr | Destroy addr | UseAfterFree addr

datatype deleter = default_delete | custom_deleter nat

datatype variant = separate_control_block pointer deleter | inline_control_block

record control_block_base =
  shared_count :: size_t
  weak_count :: size_t
  variant :: variant

text \<open>
  The members \<^verbatim>\<open>ptr_\<close> and \<^verbatim>\<open>ctrl_block_\<close> of the two handle classes (a name cannot
  end in an underscore here, and the counters \<^verbatim>\<open>shared_count_\<close>, \<^verbatim>\<open>weak_count_\<close> lose theirs).
\<close>

datatype shared_ptr = shared_ptr (sp_ptr: pointer) (sp_ctrl_block: pointer)

datatype weak_ptr = weak_ptr (wp_ptr: pointer) (wp_ctrl_block: pointer)

record state =
  blocks :: "addr \<rightharpoonup> control_block_base"
  allocated :: "addr set"
  log :: "event list"
  sps :: "nat \<Rightarrow> shared_ptr"
  wps :: "nat \<Rightarrow> weak_ptr"

section \<open>Control block (detail/control\_block.hpp)\<close>

definition control_block_base_ctor :: "variant \<Rightarrow> control_block_base" where
  "control_block_base_ctor v = \<lparr>shared_count = 1, weak_count = 1, variant = v\<rparr>"

definition put_block :: "addr \<Rightarrow> control_block_base \<Rightarrow> state \<Rightarrow> state" where
  "put_block this cb st = st\<lparr>blocks := (blocks st)(this \<mapsto> cb)\<rparr>"

definition emit :: "event \<Rightarrow> state \<Rightarrow> state" where
  "emit e st = st\<lparr>log := log st @ [e]\<rparr>"

text \<open>\<^verbatim>\<open>default_delete::operator()\<close> is \<^verbatim>\<open>delete ptr\<close>; a custom deleter is only logged.\<close>

definition call_deleter :: "deleter \<Rightarrow> addr \<Rightarrow> state \<Rightarrow> state" where
  "call_deleter d p st =
     (case d of
        default_delete \<Rightarrow> (emit (Deleter p) st)\<lparr>allocated := allocated st - {p}\<rparr>
      | custom_deleter _ \<Rightarrow> emit (Deleter p) st)"

definition dispose :: "addr \<Rightarrow> state \<Rightarrow> state" where
  "dispose this st =
     (case blocks st this of
        None \<Rightarrow> emit (UseAfterFree this) st
      | Some cb \<Rightarrow>
          (case variant cb of
             separate_control_block p d \<Rightarrow>
               (case p of
                  None \<Rightarrow> emit (Dispose this) st
                | Some a \<Rightarrow>
                    put_block this (cb\<lparr>variant := separate_control_block None d\<rparr>)
                      (call_deleter d a (emit (Dispose this) st)))
           | inline_control_block \<Rightarrow> emit (Dtor this) (emit (Dispose this) st)))"

text \<open>\<^verbatim>\<open>destroy()\<close> is \<^verbatim>\<open>delete this\<close> in both variants.\<close>

definition destroy :: "addr \<Rightarrow> state \<Rightarrow> state" where
  "destroy this st =
     (emit (Destroy this) st)\<lparr>blocks := (blocks st)(this := None),
                              allocated := allocated st - {this}\<rparr>"

definition add_shared_ref :: "addr \<Rightarrow> state \<Rightarrow> state" where
  "add_shared_ref this st =
     (case blocks st this of
        None \<Rightarrow> emit (UseAfterFree this) st
      | Some cb \<Rightarrow> put_block this (cb\<lparr>shared_count := shared_count cb + 1\<rparr>) st)"

definition add_weak_ref :: "addr \<Rightarrow> state \<Rightarrow> state" where
  "add_weak_ref this st =
     (case blocks st this of
        None \<Rightarrow> emit (UseAfterFree this) st
      | Some cb \<Rightarrow> put_block this (cb\<lparr>weak_count := weak_count cb + 1\<rparr>) st)"

definition release_weak :: "addr \<Rightarrow> state \<Rightarrow> state" where
  "release_weak this st =
     (case blocks st this of
        None \<Rightarrow> emit (UseAfterFree this) st
      | Some cb \<Rightarrow>
          (let old = weak_count cb;
               st' = put_block this (cb\<lparr>weak_count := old - 1\<rparr>) st
           in if old = 1 then destroy this st' else st'))"

definition release_shared :: "addr \<Rightarrow> state \<Rightarrow> state" where
  "release_shared this st =
     (case blocks st this of
        None \<Rightarrow> emit (UseAfterFree this) st
      | Some cb \<Rightarrow>
          (let old = shared_count cb;
               st' = put_block this (cb\<lparr>shared_count := old - 1\<rparr>) st
           in if old = 1 then release_weak this (dispose this st') else st'))"

text \<open>
  \<^verbatim>\<open>compare_exchange_weak\<close> may fail although the values are equal, and another thread
  may have stored a new value since the last read. Both are supplied by a schedule: one
  entry per attempt, and an undisturbed attempt once the schedule is used up. The result
  is (success, value of the atomic, value of \<^verbatim>\<open>expected\<close>).
\<close>

datatype cas_event = Spurious | Interfere size_t

fun compare_exchange_weak ::
  "cas_event option \<Rightarrow> size_t \<Rightarrow> size_t \<Rightarrow> size_t \<Rightarrow> bool \<times> size_t \<times> size_t" where
  "compare_exchange_weak (Some Spurious) cur expected desired = (False, cur, cur)"
| "compare_exchange_weak (Some (Interfere v)) cur expected desired =
     (if v = expected then (True, desired, expected) else (False, v, v))"
| "compare_exchange_weak None cur expected desired =
     (if cur = expected then (True, desired, expected) else (False, cur, cur))"

definition next_event :: "cas_event list \<Rightarrow> cas_event option" where
  "next_event sched = (case sched of [] \<Rightarrow> None | e # _ \<Rightarrow> Some e)"

text \<open>
  The loop of \<^verbatim>\<open>try_add_shared_ref\<close>, on the local \<^verbatim>\<open>count\<close> and the value of the atomic.
  It returns the result, the last value of \<^verbatim>\<open>count\<close> and the value of the atomic.
\<close>

function try_add_loop :: "cas_event list \<Rightarrow> size_t \<Rightarrow> size_t \<Rightarrow> bool \<times> size_t \<times> size_t" where
  "try_add_loop sched count cur =
     (if count = 0 then (False, count, cur)
      else (case compare_exchange_weak (next_event sched) cur count (count + 1) of
              (ok, cur', count') \<Rightarrow>
                if ok then (True, count', cur') else try_add_loop (tl sched) count' cur'))"
  by pat_completeness auto
termination
  by (relation "measures [\<lambda>(sched, count, cur). length sched,
                          \<lambda>(sched, count, cur). if count = cur then 0 else 1]")
     (auto simp: next_event_def split: list.splits if_splits cas_event.splits)

declare try_add_loop.simps [simp del]

definition try_add_shared_ref :: "addr \<Rightarrow> cas_event list \<Rightarrow> state \<Rightarrow> bool \<times> state" where
  "try_add_shared_ref this sched st =
     (case blocks st this of
        None \<Rightarrow> (False, emit (UseAfterFree this) st)
      | Some cb \<Rightarrow>
          (case try_add_loop sched (shared_count cb) (shared_count cb) of
             (ok, count, cur) \<Rightarrow> (ok, put_block this (cb\<lparr>shared_count := cur\<rparr>) st)))"

text \<open>\<^verbatim>\<open>use_count()\<close> of the block; reading through a dangling pointer has no value.\<close>

definition use_count :: "addr \<Rightarrow> state \<Rightarrow> size_t option" where
  "use_count this st = map_option shared_count (blocks st this)"

definition no_interference :: "cas_event list \<Rightarrow> bool" where
  "no_interference sched = list_all (\<lambda>e. e = Spurious) sched"

section \<open>Exclusive pointer (unique\_ptr.hpp)\<close>

record unique_ptr =
  up_ptr :: pointer
  up_deleter :: deleter

definition unique_ptr_ctor :: "pointer \<Rightarrow> unique_ptr" where
  "unique_ptr_ctor p = \<lparr>up_ptr = p, up_deleter = default_delete\<rparr>"

definition unique_ptr_get :: "unique_ptr \<Rightarrow> pointer" where
  "unique_ptr_get this = up_ptr this"

definition unique_ptr_bool :: "unique_ptr \<Rightarrow> bool" where
  "unique_ptr_bool this = (up_ptr this \<noteq> None)"

text \<open>\<^verbatim>\<open>release()\<close> returns the pointer and the handle after the call.\<close>

definition unique_ptr_release :: "unique_ptr \<Rightarrow> pointer \<times> unique_ptr" where
  "unique_ptr_release this = (let p = up_ptr this in (p, this\<lparr>up_ptr := None\<rparr>))"

definition unique_ptr_reset :: "pointer \<Rightarrow> unique_ptr \<Rightarrow> state \<Rightarrow> unique_ptr \<times> state" where
  "unique_ptr_reset p this st =
     (let old = up_ptr this;
          this' = this\<lparr>up_ptr := p\<rparr>
      in (case old of
            None \<Rightarrow> (this', st)
          | Some a \<Rightarrow> (this', call_deleter (up_deleter this') a st)))"

definition unique_ptr_dtor :: "unique_ptr \<Rightarrow> state \<Rightarrow> unique_ptr \<times> state" where
  "unique_ptr_dtor this st = unique_ptr_reset None this st"

section \<open>Allocation of control blocks (control\_block.hpp, memory.hpp)\<close>

text \<open>
  The exceptions a caller can see. What the allocator answers (\<open>None\<close>: it fails) and
  whether the constructor of the managed object throws (\<open>Some e\<close>) are parameters.
\<close>

datatype error = bad_weak_ptr | bad_alloc | thrown nat

definition operator_new :: "pointer \<Rightarrow> state \<Rightarrow> (error + addr) \<times> state" where
  "operator_new alloc st =
     (case alloc of
        None \<Rightarrow> (Inl bad_alloc, st)
      | Some a \<Rightarrow> (Inr a, st\<lparr>allocated := insert a (allocated st)\<rparr>))"

definition operator_delete :: "addr \<Rightarrow> state \<Rightarrow> state" where
  "operator_delete a st = st\<lparr>allocated := allocated st - {a}\<rparr>"

text \<open>\<^verbatim>\<open>new separate_control_block(ptr, deleter)\<close>; the constructor is \<^verbatim>\<open>noexcept\<close>.\<close>

definition make_control_block ::
  "pointer \<Rightarrow> pointer \<Rightarrow> deleter \<Rightarrow> state \<Rightarrow> (error + addr) \<times> state" where
  "make_control_block alloc ptr d st =
     (case operator_new alloc st of
        (Inl e, st') \<Rightarrow> (Inl e, st')
      | (Inr a, st') \<Rightarrow>
          (Inr a, put_block a (control_block_base_ctor (separate_control_block ptr d)) st'))"

text \<open>
  The constructor of \<^verbatim>\<open>inline_control_block\<close>: the base is constructed, then the object in
  \<^verbatim>\<open>storage_\<close>. When that throws, the base is destroyed again and the exception goes on.
\<close>

definition inline_control_block_ctor :: "addr \<Rightarrow> nat option \<Rightarrow> state \<Rightarrow> (error + addr) \<times> state" where
  "inline_control_block_ctor a ctor st =
     (let st' = put_block a (control_block_base_ctor inline_control_block) st
      in (case ctor of
            None \<Rightarrow> (Inr a, st')
          | Some e \<Rightarrow> (Inl (thrown e), st'\<lparr>blocks := (blocks st')(a := None)\<rparr>)))"

text \<open>
  \<^verbatim>\<open>new inline_control_block<T>(args...)\<close>: a new-expression frees the storage when the
  constructor throws.
\<close>

definition make_inline_control_block ::
  "pointer \<Rightarrow> nat option \<Rightarrow> state \<Rightarrow> (error + addr) \<times> state" where
  "make_inline_control_block alloc ctor st =
     (case operator_new alloc st of
        (Inl e, st') \<Rightarrow> (Inl e, st')
      | (Inr a, st') \<Rightarrow>
          (case inline_control_block_ctor a ctor st' of
             (Inl e, st'') \<Rightarrow> (Inl e, operator_delete a st'')
           | (Inr cb, st'') \<Rightarrow> (Inr cb, st'')))"

text \<open>The object of an inline block lives in the block; \<^verbatim>\<open>get()\<close> is modelled by the block's address.\<close>

definition make_shared :: "pointer \<Rightarrow> nat option \<Rightarrow> state \<Rightarrow> (error + shared_ptr) \<times> state" where
  "make_shared alloc ctor st =
     (case make_inline_control_block alloc ctor st of
        (Inl e, st') \<Rightarrow> (Inl e, st')
      | (Inr cb, st') \<Rightarrow> (Inr (shared_ptr (Some cb) (Some cb)), st'))"

text \<open>
  \<^verbatim>\<open>allocate_shared\<close>: \<^verbatim>\<open>allocate\<close>, then \<^verbatim>\<open>construct\<close> inside \<^verbatim>\<open>try\<close>, with \<^verbatim>\<open>deallocate\<close> and
  rethrow in the handler. The model follows the statements of the function. As shipped the
  template cannot be instantiated: it writes the private members of \<^verbatim>\<open>shared_ptr\<close> without
  being a friend, and it hands the rebound allocator to \<^verbatim>\<open>allocator_traits<Alloc>\<close>.
\<close>

definition allocate_shared :: "pointer \<Rightarrow> nat option \<Rightarrow> state \<Rightarrow> (error + shared_ptr) \<times> state" where
  "allocate_shared alloc ctor st =
     (case operator_new alloc st of
        (Inl e, st') \<Rightarrow> (Inl e, st')
      | (Inr a, st') \<Rightarrow>
          (case inline_control_block_ctor a ctor st' of
             (Inl e, st'') \<Rightarrow> (Inl e, operator_delete a st'')
           | (Inr cb, st'') \<Rightarrow> (Inr (shared_ptr (Some cb) (Some cb)), st'')))"

section \<open>Shared pointer (shared\_ptr.hpp)\<close>

definition shared_ptr_default :: shared_ptr where
  "shared_ptr_default = shared_ptr None None"

text \<open>\<^verbatim>\<open>shared_ptr(U *ptr)\<close> and \<^verbatim>\<open>shared_ptr(U *ptr, Deleter&& deleter)\<close>.\<close>

definition shared_ptr_raw_deleter ::
  "pointer \<Rightarrow> pointer \<Rightarrow> deleter \<Rightarrow> state \<Rightarrow> (error + shared_ptr) \<times> state" where
  "shared_ptr_raw_deleter alloc ptr d st =
     (case make_control_block alloc ptr d st of
        (Inl e, st') \<Rightarrow> (Inl e, st')
      | (Inr cb, st') \<Rightarrow> (Inr (shared_ptr ptr (Some cb)), st'))"

definition shared_ptr_raw :: "pointer \<Rightarrow> pointer \<Rightarrow> state \<Rightarrow> (error + shared_ptr) \<times> state" where
  "shared_ptr_raw alloc ptr st = shared_ptr_raw_deleter alloc ptr default_delete st"

definition shared_ptr_copy_ctor :: "shared_ptr \<Rightarrow> state \<Rightarrow> shared_ptr \<times> state" where
  "shared_ptr_copy_ctor other st =
     (let this = shared_ptr (sp_ptr other) (sp_ctrl_block other)
      in (case sp_ctrl_block this of
            None \<Rightarrow> (this, st)
          | Some cb \<Rightarrow> (this, add_shared_ref cb st)))"

text \<open>
  A handle that is passed by reference and written to is a variable: an index into
  \<open>sps\<close> (or \<open>wps\<close>). A temporary is a value.
\<close>

definition shared_ptr_move_ctor :: "nat \<Rightarrow> state \<Rightarrow> shared_ptr \<times> state" where
  "shared_ptr_move_ctor other st =
     (let this = shared_ptr (sp_ptr (sps st other)) (sp_ctrl_block (sps st other))
      in (this, st\<lparr>sps := (sps st)(other := shared_ptr None None)\<rparr>))"

definition shared_ptr_dtor :: "shared_ptr \<Rightarrow> state \<Rightarrow> state" where
  "shared_ptr_dtor this st =
     (case sp_ctrl_block this of
        None \<Rightarrow> st
      | Some cb \<Rightarrow> release_shared cb st)"

text \<open>\<^verbatim>\<open>tmp.swap(other)\<close> for a temporary \<open>tmp\<close>: the temporary after the call and the state.\<close>

definition shared_ptr_swap :: "shared_ptr \<Rightarrow> nat \<Rightarrow> state \<Rightarrow> shared_ptr \<times> state" where
  "shared_ptr_swap tmp other st = (sps st other, st\<lparr>sps := (sps st)(other := tmp)\<rparr>)"

definition shared_ptr_copy_assign :: "nat \<Rightarrow> nat \<Rightarrow> state \<Rightarrow> state" where
  "shared_ptr_copy_assign this other st =
     (case shared_ptr_copy_ctor (sps st other) st of
        (tmp, st1) \<Rightarrow>
          (case shared_ptr_swap tmp this st1 of
             (tmp', st2) \<Rightarrow> shared_ptr_dtor tmp' st2))"

definition shared_ptr_move_assign :: "nat \<Rightarrow> nat \<Rightarrow> state \<Rightarrow> state" where
  "shared_ptr_move_assign this other st =
     (case shared_ptr_move_ctor other st of
        (tmp, st1) \<Rightarrow>
          (case shared_ptr_swap tmp this st1 of
             (tmp', st2) \<Rightarrow> shared_ptr_dtor tmp' st2))"

definition shared_ptr_reset :: "nat \<Rightarrow> state \<Rightarrow> state" where
  "shared_ptr_reset this st =
     (case shared_ptr_swap shared_ptr_default this st of
        (tmp', st1) \<Rightarrow> shared_ptr_dtor tmp' st1)"

definition shared_ptr_reset_raw :: "pointer \<Rightarrow> nat \<Rightarrow> pointer \<Rightarrow> state \<Rightarrow> (error + unit) \<times> state" where
  "shared_ptr_reset_raw alloc this ptr st =
     (case shared_ptr_raw alloc ptr st of
        (Inl e, st') \<Rightarrow> (Inl e, st')
      | (Inr tmp, st1) \<Rightarrow>
          (case shared_ptr_swap tmp this st1 of
             (tmp', st2) \<Rightarrow> (Inr (), shared_ptr_dtor tmp' st2)))"

definition shared_ptr_get :: "shared_ptr \<Rightarrow> pointer" where
  "shared_ptr_get this = sp_ptr this"

definition shared_ptr_bool :: "shared_ptr \<Rightarrow> bool" where
  "shared_ptr_bool this = (sp_ptr this \<noteq> None)"

text \<open>\<^verbatim>\<open>use_count()\<close> returns \<^verbatim>\<open>long\<close>, taken to be 64 bits: the cast reads the counter as signed.\<close>

definition shared_ptr_use_count :: "shared_ptr \<Rightarrow> state \<Rightarrow> int option" where
  "shared_ptr_use_count this st =
     (case sp_ctrl_block this of
        None \<Rightarrow> Some 0
      | Some cb \<Rightarrow> map_option sint (use_count cb st))"

definition shared_ptr_unique :: "shared_ptr \<Rightarrow> state \<Rightarrow> bool option" where
  "shared_ptr_unique this st = map_option (\<lambda>c. c = 1) (shared_ptr_use_count this st)"

text \<open>Copying a handle \<open>n\<close> times: the copies and the state after the last one.\<close>

fun copies :: "nat \<Rightarrow> shared_ptr \<Rightarrow> state \<Rightarrow> shared_ptr list \<times> state" where
  "copies 0 s st = ([], st)"
| "copies (Suc n) s st =
     (case shared_ptr_copy_ctor s st of
        (c, st') \<Rightarrow> (case copies n s st' of (cs, st'') \<Rightarrow> (c # cs, st'')))"

section \<open>Weak pointer (weak\_ptr.hpp)\<close>

definition weak_ptr_default :: weak_ptr where
  "weak_ptr_default = weak_ptr None None"

definition weak_ptr_from_shared :: "shared_ptr \<Rightarrow> state \<Rightarrow> weak_ptr \<times> state" where
  "weak_ptr_from_shared other st =
     (let this = weak_ptr (sp_ptr other) (sp_ctrl_block other)
      in (case wp_ctrl_block this of
            None \<Rightarrow> (this, st)
          | Some cb \<Rightarrow> (this, add_weak_ref cb st)))"

definition weak_ptr_copy_ctor :: "weak_ptr \<Rightarrow> state \<Rightarrow> weak_ptr \<times> state" where
  "weak_ptr_copy_ctor other st =
     (let this = weak_ptr (wp_ptr other) (wp_ctrl_block other)
      in (case wp_ctrl_block this of
            None \<Rightarrow> (this, st)
          | Some cb \<Rightarrow> (this, add_weak_ref cb st)))"

definition weak_ptr_move_ctor :: "nat \<Rightarrow> state \<Rightarrow> weak_ptr \<times> state" where
  "weak_ptr_move_ctor other st =
     (let this = weak_ptr (wp_ptr (wps st other)) (wp_ctrl_block (wps st other))
      in (this, st\<lparr>wps := (wps st)(other := weak_ptr None None)\<rparr>))"

definition weak_ptr_dtor :: "weak_ptr \<Rightarrow> state \<Rightarrow> state" where
  "weak_ptr_dtor this st =
     (case wp_ctrl_block this of
        None \<Rightarrow> st
      | Some cb \<Rightarrow> release_weak cb st)"

definition weak_ptr_swap :: "weak_ptr \<Rightarrow> nat \<Rightarrow> state \<Rightarrow> weak_ptr \<times> state" where
  "weak_ptr_swap tmp other st = (wps st other, st\<lparr>wps := (wps st)(other := tmp)\<rparr>)"

definition weak_ptr_copy_assign :: "nat \<Rightarrow> nat \<Rightarrow> state \<Rightarrow> state" where
  "weak_ptr_copy_assign this other st =
     (case weak_ptr_copy_ctor (wps st other) st of
        (tmp, st1) \<Rightarrow>
          (case weak_ptr_swap tmp this st1 of
             (tmp', st2) \<Rightarrow> weak_ptr_dtor tmp' st2))"

definition weak_ptr_move_assign :: "nat \<Rightarrow> nat \<Rightarrow> state \<Rightarrow> state" where
  "weak_ptr_move_assign this other st =
     (case weak_ptr_move_ctor other st of
        (tmp, st1) \<Rightarrow>
          (case weak_ptr_swap tmp this st1 of
             (tmp', st2) \<Rightarrow> weak_ptr_dtor tmp' st2))"

definition weak_ptr_assign_shared :: "nat \<Rightarrow> shared_ptr \<Rightarrow> state \<Rightarrow> state" where
  "weak_ptr_assign_shared this other st =
     (case weak_ptr_from_shared other st of
        (tmp, st1) \<Rightarrow>
          (case weak_ptr_swap tmp this st1 of
             (tmp', st2) \<Rightarrow> weak_ptr_dtor tmp' st2))"

definition weak_ptr_reset :: "nat \<Rightarrow> state \<Rightarrow> state" where
  "weak_ptr_reset this st =
     (case weak_ptr_swap weak_ptr_default this st of
        (tmp', st1) \<Rightarrow> weak_ptr_dtor tmp' st1)"

definition weak_ptr_use_count :: "weak_ptr \<Rightarrow> state \<Rightarrow> int option" where
  "weak_ptr_use_count this st =
     (case wp_ctrl_block this of
        None \<Rightarrow> Some 0
      | Some cb \<Rightarrow> map_option sint (use_count cb st))"

definition weak_ptr_expired :: "weak_ptr \<Rightarrow> state \<Rightarrow> bool option" where
  "weak_ptr_expired this st = map_option (\<lambda>c. c = 0) (weak_ptr_use_count this st)"

definition weak_ptr_lock :: "weak_ptr \<Rightarrow> cas_event list \<Rightarrow> state \<Rightarrow> shared_ptr \<times> state" where
  "weak_ptr_lock this sched st =
     (case wp_ctrl_block this of
        None \<Rightarrow> (shared_ptr None None, st)
      | Some cb \<Rightarrow>
          (case try_add_shared_ref cb sched st of
             (ok, st') \<Rightarrow>
               if ok then (shared_ptr (wp_ptr this) (Some cb), st')
               else (shared_ptr None None, st')))"

text \<open>
  \<^verbatim>\<open>shared_ptr(const weak_ptr<U>& other)\<close>: the members are initialised from \<open>other\<close>; when
  a block is there and the upgrade fails, \<^verbatim>\<open>bad_weak_ptr\<close> is thrown and no handle exists.
\<close>

definition shared_ptr_from_weak ::
  "weak_ptr \<Rightarrow> cas_event list \<Rightarrow> state \<Rightarrow> (error + shared_ptr) \<times> state" where
  "shared_ptr_from_weak other sched st =
     (let this = shared_ptr (wp_ptr other) (wp_ctrl_block other)
      in (case sp_ctrl_block this of
            None \<Rightarrow> (Inr this, st)
          | Some cb \<Rightarrow>
              (case try_add_shared_ref cb sched st of
                 (ok, st') \<Rightarrow> if \<not> ok then (Inl bad_weak_ptr, st') else (Inr this, st'))))"

section \<open>Sequences of calls on one control block\<close>

text \<open>
  The calls that reach one block, in the order in which they take effect. An upgrade
  attempt carries the number of spurious failures of its compare-and-swap.
\<close>

datatype cb_op = Add_shared_ref | Release_shared | Add_weak_ref | Release_weak | Try_add_shared_ref nat

fun apply_op :: "addr \<Rightarrow> cb_op \<Rightarrow> state \<Rightarrow> state" where
  "apply_op this Add_shared_ref st = add_shared_ref this st"
| "apply_op this Release_shared st = release_shared this st"
| "apply_op this Add_weak_ref st = add_weak_ref this st"
| "apply_op this Release_weak st = release_weak this st"
| "apply_op this (Try_add_shared_ref n) st = snd (try_add_shared_ref this (replicate n Spurious) st)"

fun run :: "addr \<Rightarrow> cb_op list \<Rightarrow> state \<Rightarrow> state" where
  "run this [] st = st"
| "run this (x # xs) st = run this xs (apply_op this x st)"

text \<open>
  Bookkeeping of the references handed out: \<open>s\<close> strong and \<open>w\<close> weak references have
  been acquired and not yet released. \<open>releases_covered\<close> asks only that every release
  gives back a reference acquired before.
\<close>

fun releases_covered :: "addr \<Rightarrow> nat \<Rightarrow> nat \<Rightarrow> cb_op list \<Rightarrow> state \<Rightarrow> bool" where
  "releases_covered this s w [] st = True"
| "releases_covered this s w (Add_shared_ref # xs) st =
     releases_covered this (s + 1) w xs (add_shared_ref this st)"
| "releases_covered this s w (Release_shared # xs) st =
     (0 < s \<and> releases_covered this (s - 1) w xs (release_shared this st))"
| "releases_covered this s w (Add_weak_ref # xs) st =
     releases_covered this s (w + 1) xs (add_weak_ref this st)"
| "releases_covered this s w (Release_weak # xs) st =
     (0 < w \<and> releases_covered this s (w - 1) xs (release_weak this st))"
| "releases_covered this s w (Try_add_shared_ref n # xs) st =
     (case try_add_shared_ref this (replicate n Spurious) st of
        (ok, st') \<Rightarrow> releases_covered this (if ok then s + 1 else s) w xs st')"

text \<open>
  \<open>calls_by_holders\<close> asks that every call is made by the holder of a reference, as the
  handles do: \<^verbatim>\<open>add_shared_ref\<close> and \<^verbatim>\<open>release_shared\<close> by the holder of a strong
  reference, \<^verbatim>\<open>release_weak\<close> by the holder of a weak one, \<^verbatim>\<open>add_weak_ref\<close> and
  \<^verbatim>\<open>try_add_shared_ref\<close> by the holder of either. While a reference is outstanding the
  block has not been destroyed.
\<close>

fun calls_by_holders :: "addr \<Rightarrow> nat \<Rightarrow> nat \<Rightarrow> cb_op list \<Rightarrow> state \<Rightarrow> bool" where
  "calls_by_holders this s w [] st = True"
| "calls_by_holders this s w (Add_shared_ref # xs) st =
     (0 < s \<and> calls_by_holders this (s + 1) w xs (add_shared_ref this st))"
| "calls_by_holders this s w (Release_shared # xs) st =
     (0 < s \<and> calls_by_holders this (s - 1) w xs (release_shared this st))"
| "calls_by_holders this s w (Add_weak_ref # xs) st =
     ((0 < s \<or> 0 < w) \<and> calls_by_holders this s (w + 1) xs (add_weak_ref this st))"
| "calls_by_holders this s w (Release_weak # xs) st =
     (0 < w \<and> calls_by_holders this s (w - 1) xs (release_weak this st))"
| "calls_by_holders this s w (Try_add_shared_ref n # xs) st =
     ((0 < s \<or> 0 < w) \<and>
      (case try_add_shared_ref this (replicate n Spurious) st of
         (ok, st') \<Rightarrow> calls_by_holders this (if ok then s + 1 else s) w xs st'))"

definition teardown :: "addr \<Rightarrow> state \<Rightarrow> event list" where
  "teardown this st = filter (\<lambda>e. e = Dispose this \<or> e = Destroy this) (log st)"

text \<open>
  The counters against the bookkeeping: the strong count is \<open>s\<close>, the weak count is \<open>w\<close>
  plus the reference of the strong group, and the block is gone only after both steps
  of the teardown.
\<close>

definition cb_inv :: "addr \<Rightarrow> nat \<Rightarrow> nat \<Rightarrow> state \<Rightarrow> bool" where
  "cb_inv this s w st =
     (case blocks st this of
        None \<Rightarrow> s = 0 \<and> teardown this st = [Dispose this, Destroy this]
      | Some cb \<Rightarrow>
          unat (shared_count cb) = s \<and>
          unat (weak_count cb) = w + (if 0 < s then 1 else 0) \<and>
          (0 < s \<or> 0 < w) \<and>
          teardown this st = (if 0 < s then [] else [Dispose this]))"

text \<open>The state of a program that has not allocated anything.\<close>

definition empty_state :: state where
  "empty_state =
     \<lparr>blocks = Map.empty, allocated = {}, log = [],
      sps = (\<lambda>_. shared_ptr None None), wps = (\<lambda>_. weak_ptr None None)\<rparr>"

text \<open>
  States reached by running the library: \<^verbatim>\<open>make_shared\<close> with its block at address 1, the
  same followed by a weak pointer to the result, and that after the only shared pointer is
  destroyed.
\<close>

definition fresh_state :: state where
  "fresh_state = snd (make_shared (Some 1) None empty_state)"

definition observed_state :: state where
  "observed_state =
     snd (weak_ptr_from_shared (shared_ptr (Some 1) (Some 1))
            (snd (make_shared (Some 1) None empty_state)))"

definition expired_state :: state where
  "expired_state = shared_ptr_dtor (shared_ptr (Some 1) (Some 1)) observed_state"

text \<open>
  States with named handles: variable 0 holds the result of \<^verbatim>\<open>make_shared\<close>; and variables
  0 and 2 share the block at address 1 while variable 1 holds a second block at address 2.
\<close>

definition held_state :: state where
  "held_state = fresh_state\<lparr>sps := (sps fresh_state)(0 := shared_ptr (Some 1) (Some 1))\<rparr>"

definition two_blocks_state :: state where
  "two_blocks_state =
     (snd (make_shared (Some 2) None
        (snd (shared_ptr_copy_ctor (shared_ptr (Some 1) (Some 1)) fresh_state))))
     \<lparr>sps := (\<lambda>_. shared_ptr None None)
          (0 := shared_ptr (Some 1) (Some 1),
           1 := shared_ptr (Some 2) (Some 2),
           2 := shared_ptr (Some 1) (Some 1))\<rparr>"

text \<open>A state in which the caller has allocated one object, at address 5, with \<^verbatim>\<open>new\<close>.\<close>

definition adopting_state :: state where
  "adopting_state = empty_state\<lparr>allocated := {5}\<rparr>"

section \<open>Properties of the control block\<close>



lemma try_add_loop_quiet:
  "no_interference sched \<Longrightarrow>
   try_add_loop sched c c = (c \<noteq> 0, c, if c \<noteq> 0 then c + 1 else c)"
proof (induction sched)
  case Nil
  then show ?case by (simp add: try_add_loop.simps[of "[]" c c] next_event_def)
next
  case (Cons e sched)
  then have e: "e = Spurious" and q: "no_interference sched"
    by (simp_all add: no_interference_def)
  show ?case
    using Cons.IH[OF q]
    by (simp add: e try_add_loop.simps[of "Spurious # sched" c c] next_event_def)
qed





section \<open>Properties of the exclusive pointer\<close>

text \<open>
  C8. For an owning exclusive pointer, \<^verbatim>\<open>release()\<close> returns the held pointer and leaves the
  handle empty, \<^verbatim>\<open>reset\<close> with the released pointer gives back the very same handle, the
  deleter is not called on the way (the state is unchanged), and the address is managed
  once: destroying the handle afterwards calls the deleter on it exactly once.
\<close>
theorem unique_ptr_release_reset_roundtrip:
  assumes "up_ptr u = Some p"
    and "unique_ptr_release u = (r, u1)"
    and "unique_ptr_reset r u1 st = (u2, st')"
  shows "r = Some p \<and> unique_ptr_get u1 = None \<and> \<not> unique_ptr_bool u1
       \<and> u2 = u \<and> st' = st
       \<and> log (snd (unique_ptr_dtor u2 st')) = log st @ [Deleter p]"
proof -
  from assms(1,2) have r: "r = Some p" and u1: "u1 = u\<lparr>up_ptr := None\<rparr>"
    by (auto simp: unique_ptr_release_def Let_def)
  from assms(1,3) r u1 have u2: "u2 = u" and st': "st' = st"
    by (auto simp: unique_ptr_reset_def Let_def)
  have "log (snd (unique_ptr_dtor u st)) = log st @ [Deleter p]"
    using assms(1)
    by (simp add: unique_ptr_dtor_def unique_ptr_reset_def call_deleter_def emit_def Let_def
        split: deleter.splits)
  with r u1 u2 st' show ?thesis
    by (simp add: unique_ptr_get_def unique_ptr_bool_def)
qed

theorem unique_ptr_release_reset_roundtrip_witness:
  "up_ptr (unique_ptr_ctor (Some 7)) = Some 7
   \<and> unique_ptr_release (unique_ptr_ctor (Some 7)) = (Some 7, unique_ptr_ctor None)
   \<and> unique_ptr_reset (Some 7) (unique_ptr_ctor None) empty_state = (unique_ptr_ctor (Some 7), empty_state)
   \<and> log (snd (unique_ptr_dtor (unique_ptr_ctor (Some 7)) empty_state)) = [Deleter 7]"
proof -
  have a: "up_ptr (unique_ptr_ctor (Some 7)) = Some 7" by (simp add: unique_ptr_ctor_def)
  have b: "unique_ptr_release (unique_ptr_ctor (Some 7)) = (Some 7, unique_ptr_ctor None)"
    by (simp add: unique_ptr_release_def unique_ptr_ctor_def)
  have c: "unique_ptr_reset (Some 7) (unique_ptr_ctor None) empty_state = (unique_ptr_ctor (Some 7), empty_state)"
    by (simp add: unique_ptr_reset_def unique_ptr_ctor_def)
  show ?thesis
    using unique_ptr_release_reset_roundtrip[OF a b c] a b c
    by (simp add: empty_state_def)
qed

section \<open>Properties of the upgrade from a weak pointer\<close>

lemma put_block_same: "blocks st this = Some cb \<Longrightarrow> put_block this cb st = st"
  by (simp add: put_block_def map_upd_triv)

lemma try_add_shared_ref_quiet:
  assumes "blocks st this = Some cb" and "no_interference sched"
  shows "try_add_shared_ref this sched st =
           (if shared_count cb = 0 then (False, st)
            else (True, put_block this (cb\<lparr>shared_count := shared_count cb + 1\<rparr>) st))"
  using assms try_add_loop_quiet[OF assms(2), of "shared_count cb"]
  by (simp add: try_add_shared_ref_def put_block_same)

lemma disposed_iff_zero:
  assumes "cb_inv this s w st" and "blocks st this = Some cb"
  shows "(Dispose this \<in> set (log st)) = (shared_count cb = 0)"
proof -
  have "(Dispose this \<in> set (log st)) = (Dispose this \<in> set (teardown this st))"
    by (auto simp: teardown_def)
  also have "\<dots> = (s = 0)"
    using assms by (simp add: cb_inv_def)
  also have "\<dots> = (shared_count cb = 0)"
    using assms by (auto simp: cb_inv_def unat_eq_zero)
  finally show ?thesis .
qed

lemma observed_state_eq:
  "observed_state =
     \<lparr>blocks = [1 \<mapsto> \<lparr>shared_count = 1, weak_count = 2, variant = inline_control_block\<rparr>],
      allocated = {1}, log = [],
      sps = (\<lambda>_. shared_ptr None None), wps = (\<lambda>_. weak_ptr None None)\<rparr>"
  by (simp add: observed_state_def weak_ptr_from_shared_def make_shared_def
      make_inline_control_block_def operator_new_def inline_control_block_ctor_def
      put_block_def control_block_base_ctor_def add_weak_ref_def empty_state_def)

lemma expired_state_eq:
  "expired_state =
     \<lparr>blocks = [1 \<mapsto> \<lparr>shared_count = 0, weak_count = 1, variant = inline_control_block\<rparr>],
      allocated = {1}, log = [Dispose 1, Dtor 1],
      sps = (\<lambda>_. shared_ptr None None), wps = (\<lambda>_. weak_ptr None None)\<rparr>"
  by (simp add: expired_state_def observed_state_eq shared_ptr_dtor_def release_shared_def
      release_weak_def dispose_def emit_def put_block_def)

lemma expired_state_inv: "cb_inv 1 0 1 expired_state"
  by (simp add: expired_state_eq cb_inv_def teardown_def)

text \<open>
  C5. Let a weak pointer reference a block that exists and that was reached by the
  reference-counting protocol, and let no other thread store to the count during the
  call. Constructing a shared pointer from it throws \<^verbatim>\<open>bad_weak_ptr\<close> exactly when the
  block's object has been disposed; \<^verbatim>\<open>lock()\<close> (which cannot throw) then returns the empty
  handle, and neither changes the state. On a live target both return a handle to the
  block and the strong count has grown by exactly one.
\<close>

theorem weak_upgrade_throw_or_empty:
  assumes "wp_ctrl_block w = Some cb" and "blocks st cb = Some b"
    and "no_interference sched" and "cb_inv cb s k st"
  shows "(fst (shared_ptr_from_weak w sched st) = Inl bad_weak_ptr) = (Dispose cb \<in> set (log st))
       \<and> (Dispose cb \<in> set (log st) \<longrightarrow>
            shared_ptr_from_weak w sched st = (Inl bad_weak_ptr, st)
          \<and> weak_ptr_lock w sched st = (shared_ptr None None, st))
       \<and> (Dispose cb \<notin> set (log st) \<longrightarrow>
            shared_ptr_from_weak w sched st =
              (Inr (shared_ptr (wp_ptr w) (Some cb)),
               put_block cb (b\<lparr>shared_count := shared_count b + 1\<rparr>) st)
          \<and> weak_ptr_lock w sched st =
              (shared_ptr (wp_ptr w) (Some cb),
               put_block cb (b\<lparr>shared_count := shared_count b + 1\<rparr>) st)
          \<and> use_count cb (snd (weak_ptr_lock w sched st)) = Some (shared_count b + 1))"
proof -
  note d = disposed_iff_zero[OF assms(4,2)]
  note t = try_add_shared_ref_quiet[OF assms(2,3)]
  show ?thesis
    using assms(1)
    by (simp add: d t shared_ptr_from_weak_def weak_ptr_lock_def use_count_def put_block_def)
qed

theorem weak_upgrade_throw_or_empty_witness:
  "wp_ctrl_block (weak_ptr (Some 1) (Some 1)) = Some 1
   \<and> blocks expired_state 1
       = Some \<lparr>shared_count = 0, weak_count = 1, variant = inline_control_block\<rparr>
   \<and> no_interference [Spurious]
   \<and> cb_inv 1 0 1 expired_state
   \<and> Dispose 1 \<in> set (log expired_state)
   \<and> shared_ptr_from_weak (weak_ptr (Some 1) (Some 1)) [Spurious] expired_state
       = (Inl bad_weak_ptr, expired_state)
   \<and> weak_ptr_lock (weak_ptr (Some 1) (Some 1)) [Spurious] expired_state
       = (shared_ptr None None, expired_state)"
proof -
  have a: "wp_ctrl_block (weak_ptr (Some 1) (Some 1)) = Some 1" by simp
  have b: "blocks expired_state 1
       = Some \<lparr>shared_count = 0, weak_count = 1, variant = inline_control_block\<rparr>"
    by (simp add: expired_state_eq)
  have c: "no_interference [Spurious]" by (simp add: no_interference_def)
  have e: "Dispose 1 \<in> set (log expired_state)"
    by (simp add: expired_state_eq)
  show ?thesis
    using weak_upgrade_throw_or_empty[OF a b c expired_state_inv] a b c e expired_state_inv
    by simp
qed

text \<open>
  C9. Constructing a shared pointer from a default-constructed weak pointer does not
  throw: it returns the empty handle and leaves the state alone, although that weak
  pointer reports \<^verbatim>\<open>expired()\<close>. The constructor throws only for a weak pointer that holds
  a block pointer, and (without a store by another thread) for an existing block it
  throws exactly when the block's strong count is zero.
\<close>

theorem blockless_weak_does_not_throw:
  "shared_ptr_from_weak weak_ptr_default sched st = (Inr (shared_ptr None None), st)
   \<and> weak_ptr_expired weak_ptr_default st = Some True
   \<and> (fst (shared_ptr_from_weak w sched st) = Inl bad_weak_ptr \<longrightarrow> wp_ctrl_block w \<noteq> None)
   \<and> (no_interference sched \<longrightarrow> (\<forall>cb b. wp_ctrl_block w = Some cb \<longrightarrow> blocks st cb = Some b \<longrightarrow>
         (fst (shared_ptr_from_weak w sched st) = Inl bad_weak_ptr) = (shared_count b = 0)))"
proof -
  have 1: "shared_ptr_from_weak weak_ptr_default sched st = (Inr (shared_ptr None None), st)"
    by (simp add: shared_ptr_from_weak_def weak_ptr_default_def)
  have 2: "weak_ptr_expired weak_ptr_default st = Some True"
    by (simp add: weak_ptr_expired_def weak_ptr_use_count_def weak_ptr_default_def)
  have 3: "fst (shared_ptr_from_weak w sched st) = Inl bad_weak_ptr \<longrightarrow> wp_ctrl_block w \<noteq> None"
    by (auto simp: shared_ptr_from_weak_def Let_def split: option.splits)
  have 4: "no_interference sched \<longrightarrow> (\<forall>cb b. wp_ctrl_block w = Some cb \<longrightarrow> blocks st cb = Some b \<longrightarrow>
         (fst (shared_ptr_from_weak w sched st) = Inl bad_weak_ptr) = (shared_count b = 0))"
    by (auto simp: shared_ptr_from_weak_def try_add_shared_ref_quiet Let_def)
  from 1 2 3 4 show ?thesis by blast
qed

theorem blockless_weak_does_not_throw_witness:
  "no_interference []
   \<and> wp_ctrl_block (weak_ptr (Some 1) (Some 1)) = Some 1
   \<and> blocks expired_state 1
       = Some \<lparr>shared_count = 0, weak_count = 1, variant = inline_control_block\<rparr>
   \<and> fst (shared_ptr_from_weak (weak_ptr (Some 1) (Some 1)) [] expired_state) = Inl bad_weak_ptr
   \<and> shared_ptr_from_weak weak_ptr_default [] expired_state
       = (Inr (shared_ptr None None), expired_state)
   \<and> weak_ptr_expired weak_ptr_default expired_state = Some True"
proof -
  have a: "no_interference []" by (simp add: no_interference_def)
  have b: "blocks expired_state 1
       = Some \<lparr>shared_count = 0, weak_count = 1, variant = inline_control_block\<rparr>"
    by (simp add: expired_state_eq)
  show ?thesis
    using blockless_weak_does_not_throw[of "[]" expired_state "weak_ptr (Some 1) (Some 1)"] a b
    by simp
qed

section \<open>Teardown of a control block\<close>

lemma unat_plus_one: "unat (x::size_t) + 1 < 2 ^ 64 \<Longrightarrow> unat (x + 1) = unat x + 1"
  using unat_add_lem[of x 1] by simp

lemma unat_one_iff: "(x::size_t) = 1 \<longleftrightarrow> unat x = 1"
  by (simp add: word_unat_eq_iff)

lemma unat_minus_one_size_t: "unat (x::size_t) \<noteq> 0 \<Longrightarrow> unat (x - 1) = unat x - 1"
  by (simp add: unat_minus_one unat_eq_zero)

lemma blocks_emit [simp]: "blocks (emit e st) = blocks st"
  by (simp add: emit_def)

lemma teardown_emit:
  "teardown this (emit e st) =
     teardown this st @ (if e = Dispose this \<or> e = Destroy this then [e] else [])"
  by (simp add: teardown_def emit_def)

lemma teardown_put_block [simp]: "teardown this (put_block a cb st) = teardown this st"
  by (simp add: teardown_def put_block_def)

lemma add_shared_ref_inv:
  assumes "cb_inv this s w st" and "0 < s" and "s + 1 < 2 ^ 64"
  shows "cb_inv this (s + 1) w (add_shared_ref this st)"
proof -
  from assms(1,2) obtain cb where cb: "blocks st this = Some cb"
    by (auto simp: cb_inv_def split: option.splits)
  with assms show ?thesis
    by (simp add: cb_inv_def add_shared_ref_def unat_plus_one put_block_def teardown_def)
qed

lemma add_weak_ref_inv:
  assumes "cb_inv this s w st" and "w + 2 < 2 ^ 64"
  shows "cb_inv this s (w + 1) (add_weak_ref this st)"
proof (cases "blocks st this")
  case None
  with assms show ?thesis
    by (simp add: cb_inv_def add_weak_ref_def teardown_emit)
next
  case (Some cb)
  with assms show ?thesis
    by (simp add: cb_inv_def add_weak_ref_def unat_plus_one put_block_def teardown_def)
qed

lemma release_weak_inv:
  assumes "cb_inv this s w st" and "0 < w"
  shows "cb_inv this s (w - 1) (release_weak this st)"
proof (cases "blocks st this")
  case None
  with assms show ?thesis
    by (simp add: cb_inv_def release_weak_def teardown_emit)
next
  case (Some cb)
  show ?thesis
  proof (cases "weak_count cb = 1")
    case True
    then have u: "unat (weak_count cb) = 1" by simp
    from assms(1) Some have wc: "unat (weak_count cb) = w + (if 0 < s then 1 else 0)"
      and td: "teardown this st = (if 0 < s then [] else [Dispose this])"
      by (simp_all add: cb_inv_def)
    from u wc assms(2) have "s = 0" by (cases "0 < s") simp_all
    with td have "s = 0" and "teardown this st = [Dispose this]" by simp_all
    with True Some show ?thesis
      by (simp add: cb_inv_def release_weak_def destroy_def teardown_def emit_def put_block_def)
  next
    case False
    then have "unat (weak_count cb) \<noteq> 1" using unat_one_iff[of "weak_count cb"] by simp
    with assms Some False show ?thesis
      by (auto simp: cb_inv_def release_weak_def put_block_def teardown_def
          unat_minus_one_size_t split: if_splits)
  qed
qed

lemma dispose_effect:
  assumes "blocks st this = Some cb"
  shows "teardown this (dispose this st) = teardown this st @ [Dispose this]
       \<and> (\<exists>v. blocks (dispose this st) this = Some (cb\<lparr>variant := v\<rparr>))"
proof (cases "variant cb")
  case (separate_control_block p d)
  with assms show ?thesis
    by (cases p; cases d)
       (auto simp: dispose_def teardown_def emit_def put_block_def call_deleter_def
             intro: exI[of _ "variant cb"])
next
  case inline_control_block
  with assms show ?thesis
    by (auto simp: dispose_def teardown_def emit_def intro: exI[of _ "variant cb"])
qed

lemma release_shared_inv:
  assumes "cb_inv this s w st" and "0 < s"
  shows "cb_inv this (s - 1) w (release_shared this st)"
proof -
  from assms obtain cb where cb: "blocks st this = Some cb"
    by (auto simp: cb_inv_def split: option.splits)
  from assms cb have sc: "unat (shared_count cb) = s" and wc: "unat (weak_count cb) = w + 1"
    and td: "teardown this st = []"
    by (simp_all add: cb_inv_def)
  show ?thesis
  proof (cases "shared_count cb = 1")
    case True
    with sc have s1: "s = 1" by simp
    let ?st1 = "put_block this (cb\<lparr>shared_count := 0\<rparr>) st"
    have b1: "blocks ?st1 this = Some (cb\<lparr>shared_count := 0\<rparr>)" by (simp add: put_block_def)
    from dispose_effect[OF b1] obtain v where
      t2: "teardown this (dispose this ?st1) = [Dispose this]" and
      b2: "blocks (dispose this ?st1) this = Some (cb\<lparr>shared_count := 0, variant := v\<rparr>)"
      using td by auto
    have inv2: "cb_inv this 0 (w + 1) (dispose this ?st1)"
      using t2 b2 wc by (simp add: cb_inv_def)
    have rs: "release_shared this st = release_weak this (dispose this ?st1)"
      using cb True by (simp add: release_shared_def)
    show ?thesis
      using release_weak_inv[OF inv2] s1 rs by simp
  next
    case False
    with sc have "s \<noteq> 1" using unat_one_iff[of "shared_count cb"] by simp
    with assms cb sc wc td False show ?thesis
      by (auto simp: cb_inv_def release_shared_def put_block_def teardown_def
          unat_minus_one_size_t)
  qed
qed

lemma no_interference_replicate: "no_interference (replicate n Spurious)"
  by (simp add: no_interference_def list_all_iff)

lemma try_add_shared_ref_inv:
  assumes "cb_inv this s w st" and "s + 1 < 2 ^ 64"
    and "try_add_shared_ref this (replicate n Spurious) st = (ok, st')"
  shows "cb_inv this (if ok then s + 1 else s) w st'"
proof (cases "blocks st this")
  case None
  with assms show ?thesis
    by (auto simp: cb_inv_def try_add_shared_ref_def teardown_emit)
next
  case (Some cb)
  note q = try_add_shared_ref_quiet[OF Some no_interference_replicate, of n]
  show ?thesis
  proof (cases "shared_count cb = 0")
    case True
    with q assms show ?thesis by simp
  next
    case False
    with assms(1) Some have "0 < s" by (auto simp: cb_inv_def unat_gt_0)
    with q assms False Some show ?thesis
      by (auto simp: cb_inv_def unat_plus_one put_block_def teardown_def)
  qed
qed

section \<open>Properties of the shared pointer\<close>

lemma uint_small: "unat (x::size_t) < 2 ^ 63 \<Longrightarrow> uint x < 2 ^ 63"
proof -
  assume "unat x < 2 ^ 63"
  then have "int (unat x) < int (2 ^ 63)" by (rule iffD2[OF of_nat_less_iff])
  then show ?thesis by (simp only: uint_nat of_nat_power of_nat_numeral)
qed

lemma uint_big: "\<not> unat (x::size_t) < 2 ^ 63 \<Longrightarrow> 2 ^ 63 \<le> uint x"
proof -
  assume "\<not> unat x < 2 ^ 63"
  then have "\<not> int (unat x) < int (2 ^ 63)" unfolding of_nat_less_iff .
  then show ?thesis by (simp only: uint_nat of_nat_power of_nat_numeral not_less)
qed

lemma unat_small_sint: "unat (x::size_t) < 2 ^ 63 \<Longrightarrow> sint x = int (unat x)"
proof -
  assume a: "unat x < 2 ^ 63"
  have "uint x < 2 ^ 63" using a by (rule uint_small)
  moreover have "- (2 ^ 63) \<le> uint x"
    using uint_ge_0[of x] zero_le_power[of "2::int" 63] by linarith
  ultimately have "signed_take_bit 63 (uint x) = uint x"
    by (rule signed_take_bit_int_eq_self[rotated])
  moreover have "sint x = signed_take_bit 63 (uint x)"
    using sint_uint[of x] by simp
  ultimately show ?thesis by (simp only: uint_nat)
qed

lemma sint_nonneg_unat: "0 \<le> sint (x::size_t) \<Longrightarrow> unat x < 2 ^ 63"
proof (rule ccontr)
  assume s: "0 \<le> sint x" and "\<not> unat x < 2 ^ 63"
  then have big: "2 ^ 63 \<le> uint x" using uint_big by blast
  have lt: "sint x < 2 ^ 63" using sint_lt[of x] by simp
  have "uint x = take_bit 64 (sint x)" using uint_sint[of x] by simp
  also have "\<dots> = sint x"
    using s lt by (simp add: take_bit_int_eq_self)
  finally have "uint x < 2 ^ 63" using lt by simp
  with big show False by simp
qed

lemma sint_plus_one:
  assumes "0 \<le> sint (x::size_t)" and "sint x + 1 < 2 ^ 63"
  shows "sint (x + 1) = sint x + 1"
proof -
  have u: "unat x < 2 ^ 63" using assms(1) by (rule sint_nonneg_unat)
  have e: "sint x = int (unat x)" using u by (rule unat_small_sint)
  from assms(2) e have "int (unat x + 1) < int (2 ^ 63)" by (simp del: of_nat_unat)
  then have "unat x + 1 < 2 ^ 63" unfolding of_nat_less_iff .
  moreover from this have "unat (x + 1) = unat x + 1" by (intro unat_plus_one) simp
  ultimately have "sint (x + 1) = int (unat x + 1)"
    using unat_small_sint[of "x + 1"] by simp
  with e show ?thesis by (simp del: of_nat_unat)
qed

lemma sint_minus_one:
  assumes "0 < sint (x::size_t)"
  shows "sint (x - 1) = sint x - 1"
proof -
  have u: "unat x < 2 ^ 63" using assms by (intro sint_nonneg_unat) simp
  have e: "sint x = int (unat x)" using u by (rule unat_small_sint)
  with assms have nz: "unat x \<noteq> 0" by (simp del: of_nat_unat)
  then have m: "unat (x - 1) = unat x - 1" by (rule unat_minus_one_size_t)
  with u have "unat (x - 1) < 2 ^ 63" by simp
  then have "sint (x - 1) = int (unat (x - 1))" by (rule unat_small_sint)
  with m e nz show ?thesis by (simp del: of_nat_unat add: of_nat_diff)
qed

lemma sint_zero_iff: "sint (x::size_t) = 0 \<longleftrightarrow> x = 0"
  by (simp add: signed_eq_0_iff)

lemma sint_plus_nat:
  "0 \<le> sint (x::size_t) \<Longrightarrow> sint x + int n < 2 ^ 63 \<Longrightarrow> sint (x + of_nat n) = sint x + int n"
proof (induction n)
  case 0
  then show ?case by simp
next
  case (Suc n)
  then have ih: "sint (x + of_nat n) = sint x + int n" by simp
  have "sint (x + of_nat n + 1) = sint (x + of_nat n) + 1"
    using Suc.prems ih by (intro sint_plus_one) simp_all
  moreover have "x + of_nat (Suc n) = x + of_nat n + 1" by simp
  ultimately have "sint (x + of_nat (Suc n)) = sint (x + of_nat n) + 1" by (simp only:)
  with ih show ?case by simp
qed

lemma put_block_twice [simp]: "put_block a x (put_block a y st) = put_block a x st"
  by (simp add: put_block_def)

lemma blocks_put_block [simp]: "blocks (put_block a x st) = (blocks st)(a \<mapsto> x)"
  by (simp add: put_block_def)

lemma log_put_block [simp]: "log (put_block a x st) = log st"
  by (simp add: put_block_def)

lemma sps_put_block [simp]: "sps (put_block a x st) = sps st"
  by (simp add: put_block_def)

lemma shared_ptr_copy_ctor_effect:
  assumes "sp_ctrl_block s = Some cb" and "blocks st cb = Some b"
  shows "shared_ptr_copy_ctor s st = (s, put_block cb (b\<lparr>shared_count := shared_count b + 1\<rparr>) st)"
  using assms by (cases s) (simp add: shared_ptr_copy_ctor_def add_shared_ref_def)

lemma copies_effect:
  "sp_ctrl_block s = Some cb \<Longrightarrow> blocks st cb = Some b \<Longrightarrow>
   copies n s st =
     (replicate n s, put_block cb (b\<lparr>shared_count := shared_count b + of_nat n\<rparr>) st)"
proof (induction n arbitrary: st b)
  case 0
  then show ?case by (simp add: put_block_same)
next
  case (Suc n)
  let ?b = "b\<lparr>shared_count := shared_count b + 1\<rparr>"
  let ?st = "put_block cb ?b st"
  have "blocks ?st cb = Some ?b" by simp
  from Suc.IH[OF Suc.prems(1) this] shared_ptr_copy_ctor_effect[OF Suc.prems]
  show ?case by (simp add: ac_simps)
qed

lemma shared_ptr_use_count_block:
  assumes "sp_ctrl_block h = Some cb" and "blocks st cb = Some b"
  shows "shared_ptr_use_count h st = Some (sint (shared_count b))"
  using assms by (simp add: shared_ptr_use_count_def use_count_def)

lemma release_shared_not_last:
  assumes "blocks st cb = Some b" and "1 < sint (shared_count b)"
  shows "release_shared cb st = put_block cb (b\<lparr>shared_count := shared_count b - 1\<rparr>) st"
proof -
  from assms(2) have "shared_count b \<noteq> 1" by auto
  with assms(1) show ?thesis by (simp add: release_shared_def)
qed

text \<open>
  C3. Let a shared pointer hold a block and report \<^verbatim>\<open>use_count() = c\<close> with \<open>c > 0\<close>, and let
  \<open>c + n\<close> be a value of \<^verbatim>\<open>long\<close>. After copying it \<open>n\<close> times, the original and every copy
  report \<open>c + n\<close> (so \<open>n + 1\<close> for a fresh pointer). Destroying one copy, or resetting a
  variable that holds one, makes the handles report exactly one less, and the variable
  that was reset is empty.
\<close>

theorem use_count_counts_copies:
  assumes "sp_ctrl_block s = Some cb"
    and "shared_ptr_use_count s st = Some c" and "0 < c" and "c + int n < 2 ^ 63"
    and "copies n s st = (cs, st')"
  shows "length cs = n
       \<and> (\<forall>h \<in> set (s # cs). shared_ptr_use_count h st' = Some (c + int n))
       \<and> (\<forall>d \<in> set cs. \<forall>h \<in> set (s # cs).
            shared_ptr_use_count h (shared_ptr_dtor d st') = Some (c + int n - 1))
       \<and> (\<forall>x. sps st' x \<in> set cs \<longrightarrow>
            shared_ptr_use_count s (shared_ptr_reset x st') = Some (c + int n - 1)
          \<and> sps (shared_ptr_reset x st') x = shared_ptr None None)"
proof -
  from assms(1,2) obtain b where b: "blocks st cb = Some b" and c: "sint (shared_count b) = c"
    by (auto simp: shared_ptr_use_count_def use_count_def)
  let ?b = "b\<lparr>shared_count := shared_count b + of_nat n\<rparr>"
  from copies_effect[OF assms(1) b, of n] assms(5)
  have cs: "cs = replicate n s" and st': "st' = put_block cb ?b st" by simp_all
  have b': "blocks st' cb = Some ?b" by (simp add: st')
  have cnt: "sint (shared_count ?b) = c + int n"
    using sint_plus_nat[of "shared_count b" n] assms(3,4) c by simp
  have 1: "length cs = n" by (simp add: cs)
  have all: "\<forall>h \<in> set (s # cs). sp_ctrl_block h = Some cb"
    using assms(1) by (auto simp: cs)
  have 2: "\<forall>h \<in> set (s # cs). shared_ptr_use_count h st' = Some (c + int n)"
    using all shared_ptr_use_count_block[OF _ b'] cnt by auto
  have dt: "shared_ptr_dtor s st' = put_block cb (?b\<lparr>shared_count := shared_count ?b - 1\<rparr>) st'"
    if "0 < n"
    using that assms(1,3) cnt release_shared_not_last[OF b'] by (simp add: shared_ptr_dtor_def)
  have cnt': "sint (shared_count ?b - 1) = c + int n - 1"
    using sint_minus_one[of "shared_count ?b"] cnt assms(3) by simp
  have 3: "\<forall>d \<in> set cs. \<forall>h \<in> set (s # cs).
            shared_ptr_use_count h (shared_ptr_dtor d st') = Some (c + int n - 1)"
  proof (intro ballI)
    fix d h assume d: "d \<in> set cs" and h: "h \<in> set (s # cs)"
    from d have "d = s" and "0 < n" by (auto simp: cs)
    with dt have e: "shared_ptr_dtor d st' = put_block cb (?b\<lparr>shared_count := shared_count ?b - 1\<rparr>) st'"
      by simp
    from h all have "sp_ctrl_block h = Some cb" by blast
    then show "shared_ptr_use_count h (shared_ptr_dtor d st') = Some (c + int n - 1)"
      using cnt' by (simp add: e shared_ptr_use_count_def use_count_def)
  qed
  have 4: "\<forall>x. sps st' x \<in> set cs \<longrightarrow>
            shared_ptr_use_count s (shared_ptr_reset x st') = Some (c + int n - 1)
          \<and> sps (shared_ptr_reset x st') x = shared_ptr None None"
  proof (intro allI impI)
    fix x assume x: "sps st' x \<in> set cs"
    then have xs: "sps st' x = s" and n: "0 < n" by (auto simp: cs)
    let ?st1 = "st'\<lparr>sps := (sps st')(x := shared_ptr_default)\<rparr>"
    have b1: "blocks ?st1 cb = Some ?b" using b' by simp
    have r: "shared_ptr_reset x st' = put_block cb (?b\<lparr>shared_count := shared_count ?b - 1\<rparr>) ?st1"
      using xs n assms(1,3) cnt release_shared_not_last[OF b1]
      by (simp add: shared_ptr_reset_def shared_ptr_swap_def shared_ptr_dtor_def)
    show "shared_ptr_use_count s (shared_ptr_reset x st') = Some (c + int n - 1)
          \<and> sps (shared_ptr_reset x st') x = shared_ptr None None"
      using assms(1) cnt' by (simp add: r shared_ptr_use_count_def use_count_def shared_ptr_default_def)
  qed
  from 1 2 3 4 show ?thesis by blast
qed


theorem use_count_counts_copies_witness:
  "sp_ctrl_block (shared_ptr (Some 1) (Some 1)) = Some 1
   \<and> shared_ptr_use_count (shared_ptr (Some 1) (Some 1)) fresh_state = Some 1
   \<and> fst (copies 3 (shared_ptr (Some 1) (Some 1)) fresh_state)
       = [shared_ptr (Some 1) (Some 1), shared_ptr (Some 1) (Some 1), shared_ptr (Some 1) (Some 1)]
   \<and> shared_ptr_use_count (shared_ptr (Some 1) (Some 1))
        (snd (copies 3 (shared_ptr (Some 1) (Some 1)) fresh_state)) = Some 4
   \<and> shared_ptr_use_count (shared_ptr (Some 1) (Some 1))
        (shared_ptr_dtor (shared_ptr (Some 1) (Some 1))
           (snd (copies 3 (shared_ptr (Some 1) (Some 1)) fresh_state))) = Some 3"
proof -
  let ?s = "shared_ptr (Some 1) (Some 1)"
  have a: "sp_ctrl_block ?s = Some 1" by simp
  have b: "shared_ptr_use_count ?s fresh_state = Some 1" by code_simp
  have c: "(0::int) < 1" by simp
  have d: "(1::int) + int 3 < 2 ^ 63" by simp
  have e: "copies 3 ?s fresh_state = (fst (copies 3 ?s fresh_state), snd (copies 3 ?s fresh_state))"
    by simp
  have f: "fst (copies 3 ?s fresh_state) = [?s, ?s, ?s]" by code_simp
  note t = use_count_counts_copies[OF a b c d e]
  from t have 1: "shared_ptr_use_count ?s (snd (copies 3 ?s fresh_state)) = Some (1 + int 3)"
    by simp
  from t f have 2: "shared_ptr_use_count ?s (shared_ptr_dtor ?s (snd (copies 3 ?s fresh_state)))
      = Some (1 + int 3 - 1)"
    by simp
  from a b f 1 2 show ?thesis by simp
qed

lemma sps_release_weak [simp]: "sps (release_weak cb st) = sps st"
  by (simp add: release_weak_def destroy_def emit_def put_block_def Let_def split: option.splits)

lemma sps_dispose [simp]: "sps (dispose cb st) = sps st"
  by (simp add: dispose_def emit_def put_block_def call_deleter_def
      split: option.splits variant.splits deleter.splits)

lemma sps_release_shared [simp]: "sps (release_shared cb st) = sps st"
  by (simp add: release_shared_def emit_def put_block_def Let_def split: option.splits)

lemma sps_shared_ptr_dtor [simp]: "sps (shared_ptr_dtor v st) = sps st"
  by (simp add: shared_ptr_dtor_def split: option.splits)

lemma wps_release_weak [simp]: "wps (release_weak cb st) = wps st"
  by (simp add: release_weak_def destroy_def emit_def put_block_def Let_def split: option.splits)

lemma wps_weak_ptr_dtor [simp]: "wps (weak_ptr_dtor v st) = wps st"
  by (simp add: weak_ptr_dtor_def split: option.splits)

lemma shared_ptr_collapse [simp]: "shared_ptr (sp_ptr v) (sp_ctrl_block v) = v"
  by (cases v) simp

lemma weak_ptr_collapse [simp]: "weak_ptr (wp_ptr v) (wp_ctrl_block v) = v"
  by (cases v) simp

text \<open>
  C10. Let the shared pointer in variable \<open>x\<close> be empty or hold a block that exists with a
  non-zero strong count (the handle is one of its owners). Then \<^verbatim>\<open>x = x\<close> leaves the whole
  state as it was: the cached pointer, the block pointer and the strong count are
  unchanged and nothing is disposed (the log does not grow).
\<close>

theorem self_copy_assignment_is_identity:
  assumes "\<forall>cb. sp_ctrl_block (sps st x) = Some cb \<longrightarrow>
             (\<exists>b. blocks st cb = Some b \<and> shared_count b \<noteq> 0)"
  shows "shared_ptr_copy_assign x x st = st
       \<and> sps (shared_ptr_copy_assign x x st) x = sps st x
       \<and> shared_ptr_use_count (sps st x) (shared_ptr_copy_assign x x st)
           = shared_ptr_use_count (sps st x) st
       \<and> log (shared_ptr_copy_assign x x st) = log st"
proof -
  have "shared_ptr_copy_assign x x st = st"
  proof (cases "sp_ctrl_block (sps st x)")
    case None
    then obtain p where "sps st x = shared_ptr p None" by (cases "sps st x") simp
    then show ?thesis
      by (simp add: shared_ptr_copy_assign_def shared_ptr_copy_ctor_def shared_ptr_swap_def
          shared_ptr_dtor_def fun_upd_idem)
  next
    case (Some cb)
    with assms obtain b where b: "blocks st cb = Some b" and nz: "shared_count b \<noteq> 0"
      by auto
    let ?b = "b\<lparr>shared_count := shared_count b + 1\<rparr>"
    have ne: "shared_count ?b \<noteq> 1" using nz by simp
    have c: "shared_ptr_copy_ctor (sps st x) st = (sps st x, put_block cb ?b st)"
      using Some b by (rule shared_ptr_copy_ctor_effect)
    have s: "shared_ptr_swap (sps st x) x (put_block cb ?b st) = (sps st x, put_block cb ?b st)"
      by (simp add: shared_ptr_swap_def put_block_def)
    have d: "shared_ptr_dtor (sps st x) (put_block cb ?b st) = st"
      using Some ne b
      by (simp add: shared_ptr_dtor_def release_shared_def put_block_same)
    show ?thesis by (simp add: shared_ptr_copy_assign_def c s d)
  qed
  then show ?thesis by simp
qed


theorem self_copy_assignment_is_identity_witness:
  "sp_ctrl_block (sps held_state 0) = Some 1
   \<and> blocks held_state 1 = Some (control_block_base_ctor inline_control_block)
   \<and> shared_count (control_block_base_ctor inline_control_block) \<noteq> 0
   \<and> shared_ptr_copy_assign 0 0 held_state = held_state
   \<and> shared_ptr_use_count (sps held_state 0) (shared_ptr_copy_assign 0 0 held_state) = Some 1"
proof -
  have a: "sp_ctrl_block (sps held_state 0) = Some 1" by (simp add: held_state_def)
  have b: "blocks held_state 1 = Some (control_block_base_ctor inline_control_block)"
    by code_simp
  have c: "shared_count (control_block_base_ctor inline_control_block) \<noteq> 0"
    by (simp add: control_block_base_ctor_def)
  have u: "shared_ptr_use_count (sps held_state 0) held_state = Some 1" by code_simp
  have h: "\<forall>cb. sp_ctrl_block (sps held_state 0) = Some cb \<longrightarrow>
             (\<exists>b. blocks held_state cb = Some b \<and> shared_count b \<noteq> 0)"
    using a b c by simp
  show ?thesis
    using self_copy_assignment_is_identity[OF h] a b c u by simp
qed

section \<open>Properties of move construction and move assignment\<close>

lemma release_weak_sps_update:
  "release_weak cb (st\<lparr>sps := f\<rparr>) = (release_weak cb st)\<lparr>sps := f\<rparr>"
  by (simp add: release_weak_def destroy_def emit_def put_block_def Let_def split: option.splits)

lemma dispose_sps_update:
  "dispose cb (st\<lparr>sps := f\<rparr>) = (dispose cb st)\<lparr>sps := f\<rparr>"
  by (simp add: dispose_def emit_def put_block_def call_deleter_def
      split: option.splits variant.splits deleter.splits)

lemma release_shared_sps_update:
  "release_shared cb (st\<lparr>sps := f\<rparr>) = (release_shared cb st)\<lparr>sps := f\<rparr>"
proof -
  have p: "put_block cb b (st\<lparr>sps := f\<rparr>) = (put_block cb b st)\<lparr>sps := f\<rparr>" for b
    by (simp add: put_block_def)
  show ?thesis
    by (simp add: release_shared_def Let_def p dispose_sps_update release_weak_sps_update emit_def
        split: option.splits)
qed

lemma shared_ptr_dtor_sps_update:
  "shared_ptr_dtor v (st\<lparr>sps := f\<rparr>) = (shared_ptr_dtor v st)\<lparr>sps := f\<rparr>"
  by (simp add: shared_ptr_dtor_def release_shared_sps_update split: option.splits)

lemma release_weak_wps_update:
  "release_weak cb (st\<lparr>wps := f\<rparr>) = (release_weak cb st)\<lparr>wps := f\<rparr>"
  by (simp add: release_weak_def destroy_def emit_def put_block_def Let_def split: option.splits)

lemma weak_ptr_dtor_wps_update:
  "weak_ptr_dtor v (st\<lparr>wps := f\<rparr>) = (weak_ptr_dtor v st)\<lparr>wps := f\<rparr>"
  by (simp add: weak_ptr_dtor_def release_weak_wps_update split: option.splits)

lemma shared_ptr_move_assign_effect:
  "shared_ptr_move_assign this other st =
     (shared_ptr_dtor (if this = other then shared_ptr None None else sps st this) st)
       \<lparr>sps := (sps st)(other := shared_ptr None None, this := sps st other)\<rparr>"
  by (simp add: shared_ptr_move_assign_def shared_ptr_move_ctor_def shared_ptr_swap_def
      shared_ptr_dtor_sps_update)

lemma weak_ptr_move_assign_effect:
  "weak_ptr_move_assign this other st =
     (weak_ptr_dtor (if this = other then weak_ptr None None else wps st this) st)
       \<lparr>wps := (wps st)(other := weak_ptr None None, this := wps st other)\<rparr>"
  by (simp add: weak_ptr_move_assign_def weak_ptr_move_ctor_def weak_ptr_swap_def
      weak_ptr_dtor_wps_update)

text \<open>
  C4. Move construction of a shared or weak pointer takes over the source's members,
  leaves the source empty and touches no control block. Move assignment between two
  different handles leaves the source empty, gives its members to the target, and does to
  the control blocks exactly what destroying the target's old value does: one
  \<^verbatim>\<open>release_shared\<close> (\<^verbatim>\<open>release_weak\<close> for a weak pointer) on the block the target held, and
  nothing when the target was empty. Moving a handle into itself changes nothing.
\<close>

theorem move_transfers_without_counting:
  "shared_ptr_move_ctor other st
     = (sps st other, st\<lparr>sps := (sps st)(other := shared_ptr None None)\<rparr>)
   \<and> blocks (snd (shared_ptr_move_ctor other st)) = blocks st
   \<and> \<not> shared_ptr_bool (sps (snd (shared_ptr_move_ctor other st)) other)
   \<and> weak_ptr_move_ctor other st
     = (wps st other, st\<lparr>wps := (wps st)(other := weak_ptr None None)\<rparr>)
   \<and> blocks (snd (weak_ptr_move_ctor other st)) = blocks st
   \<and> (this \<noteq> other \<longrightarrow>
        shared_ptr_move_assign this other st =
          (shared_ptr_dtor (sps st this) st)
            \<lparr>sps := (sps st)(other := shared_ptr None None, this := sps st other)\<rparr>
      \<and> blocks (shared_ptr_move_assign this other st) = blocks (shared_ptr_dtor (sps st this) st)
      \<and> sps (shared_ptr_move_assign this other st) other = shared_ptr None None
      \<and> sps (shared_ptr_move_assign this other st) this = sps st other
      \<and> (sp_ctrl_block (sps st this) = None \<longrightarrow>
            blocks (shared_ptr_move_assign this other st) = blocks st))
   \<and> (this \<noteq> other \<longrightarrow>
        weak_ptr_move_assign this other st =
          (weak_ptr_dtor (wps st this) st)
            \<lparr>wps := (wps st)(other := weak_ptr None None, this := wps st other)\<rparr>
      \<and> blocks (weak_ptr_move_assign this other st) = blocks (weak_ptr_dtor (wps st this) st)
      \<and> wps (weak_ptr_move_assign this other st) other = weak_ptr None None
      \<and> wps (weak_ptr_move_assign this other st) this = wps st other
      \<and> (wp_ctrl_block (wps st this) = None \<longrightarrow>
            blocks (weak_ptr_move_assign this other st) = blocks st))
   \<and> shared_ptr_move_assign this this st = st
   \<and> weak_ptr_move_assign this this st = st"
proof -
  have 1: "shared_ptr_move_ctor other st
     = (sps st other, st\<lparr>sps := (sps st)(other := shared_ptr None None)\<rparr>)"
    by (simp add: shared_ptr_move_ctor_def)
  have 2: "weak_ptr_move_ctor other st
     = (wps st other, st\<lparr>wps := (wps st)(other := weak_ptr None None)\<rparr>)"
    by (simp add: weak_ptr_move_ctor_def)
  have 3: "shared_ptr_move_assign this this st = st"
    by (simp add: shared_ptr_move_assign_effect shared_ptr_dtor_def)
  have 4: "weak_ptr_move_assign this this st = st"
    by (simp add: weak_ptr_move_assign_effect weak_ptr_dtor_def)
  have 5: "sp_ctrl_block (sps st this) = None \<longrightarrow> shared_ptr_dtor (sps st this) st = st"
    by (simp add: shared_ptr_dtor_def)
  have 6: "wp_ctrl_block (wps st this) = None \<longrightarrow> weak_ptr_dtor (wps st this) st = st"
    by (simp add: weak_ptr_dtor_def)
  have 7: "shared_ptr_dtor (shared_ptr None None) st = st"
    by (simp add: shared_ptr_dtor_def)
  have 8: "weak_ptr_dtor (weak_ptr None None) st = st"
    by (simp add: weak_ptr_dtor_def)
  show ?thesis
    using 5 6
    by (simp add: 1 2 7 8 shared_ptr_move_assign_effect weak_ptr_move_assign_effect
        shared_ptr_bool_def)
qed


text \<open>
  Move assignment does change a counter when the target holds a block: with two owners of
  block 1, assigning into one of them takes its strong count from 2 to 1. And moving a
  handle into itself leaves it non-empty.
\<close>

theorem move_assignment_counterexample:
  "use_count 1 two_blocks_state = Some 2
   \<and> use_count 1 (shared_ptr_move_assign 0 1 two_blocks_state) = Some 1
   \<and> sps two_blocks_state 0 = shared_ptr (Some 1) (Some 1)
   \<and> sps (shared_ptr_move_assign 0 0 two_blocks_state) 0 = shared_ptr (Some 1) (Some 1)
   \<and> shared_ptr_bool (sps (shared_ptr_move_assign 0 0 two_blocks_state) 0)"
  by code_simp

theorem move_transfers_without_counting_witness:
  "(0::nat) \<noteq> 1
   \<and> sp_ctrl_block (sps held_state 1) = None
   \<and> blocks (shared_ptr_move_assign 1 0 held_state) = blocks held_state
   \<and> sps (shared_ptr_move_assign 1 0 held_state) 0 = shared_ptr None None
   \<and> sps (shared_ptr_move_assign 1 0 held_state) 1 = shared_ptr (Some 1) (Some 1)"
proof -
  have a: "(1::nat) \<noteq> 0" by simp
  have b: "sp_ctrl_block (sps held_state 1) = None"
    by (simp add: held_state_def fresh_state_def make_shared_def make_inline_control_block_def
        operator_new_def inline_control_block_ctor_def put_block_def empty_state_def)
  have c: "sps held_state 0 = shared_ptr (Some 1) (Some 1)" by (simp add: held_state_def)
  note t = move_transfers_without_counting[of 0 held_state 1]
  from t a b have
    "blocks (shared_ptr_move_assign 1 0 held_state) = blocks held_state
     \<and> sps (shared_ptr_move_assign 1 0 held_state) 0 = shared_ptr None None
     \<and> sps (shared_ptr_move_assign 1 0 held_state) 1 = sps held_state 0"
    by blast
  with b c show ?thesis by simp
qed

section \<open>Properties of the weak pointer\<close>

lemma weak_ptr_expired_block:
  assumes "wp_ctrl_block w = Some cb" and "blocks st cb = Some b"
  shows "weak_ptr_expired w st = Some (shared_count b = 0)"
  using assms
  by (simp add: weak_ptr_expired_def weak_ptr_use_count_def use_count_def sint_zero_iff)

lemma weak_ptr_expired_inv:
  assumes "wp_ctrl_block w = Some cb" and "cb_inv cb s k st" and "blocks st cb \<noteq> None"
  shows "weak_ptr_expired w st = Some (s = 0)"
proof -
  from assms(3) obtain b where b: "blocks st cb = Some b" by auto
  with assms(2) have "unat (shared_count b) = s" by (simp add: cb_inv_def)
  then have "(shared_count b = 0) = (s = 0)" by (auto simp: unat_eq_zero)
  with weak_ptr_expired_block[OF assms(1) b] show ?thesis by simp
qed

lemma weak_ptr_expired_sps_update [simp]:
  "weak_ptr_expired w (st\<lparr>sps := f\<rparr>) = weak_ptr_expired w st"
  by (simp add: weak_ptr_expired_def weak_ptr_use_count_def use_count_def split: option.splits)

lemma block_survives:
  assumes "cb_inv cb s k st" and "0 < s" and "0 < k"
  shows "blocks (apply_op cb x st) cb \<noteq> None"
proof -
  from assms obtain b where b: "blocks st cb = Some b"
    by (auto simp: cb_inv_def split: option.splits)
  with assms have wc: "unat (weak_count b) = k + 1" by (simp add: cb_inv_def)
  then have w1: "weak_count b \<noteq> 1" using assms(3) by auto
  show ?thesis
  proof (cases x)
    case Add_shared_ref
    with b show ?thesis by (simp add: add_shared_ref_def)
  next
    case Release_shared
    show ?thesis
    proof (cases "shared_count b = 1")
      case True
      let ?st1 = "put_block cb (b\<lparr>shared_count := 0\<rparr>) st"
      have "blocks ?st1 cb = Some (b\<lparr>shared_count := 0\<rparr>)" by simp
      from dispose_effect[OF this] obtain v where
        "blocks (dispose cb ?st1) cb = Some (b\<lparr>shared_count := 0, variant := v\<rparr>)" by auto
      then have "blocks (release_weak cb (dispose cb ?st1)) cb \<noteq> None"
        using w1 by (simp add: release_weak_def)
      with True b Release_shared show ?thesis by (simp add: release_shared_def)
    next
      case False
      with b Release_shared show ?thesis by (simp add: release_shared_def)
    qed
  next
    case Add_weak_ref
    with b show ?thesis by (simp add: add_weak_ref_def)
  next
    case Release_weak
    with b w1 show ?thesis by (simp add: release_weak_def)
  next
    case (Try_add_shared_ref n)
    with b show ?thesis
      by (simp add: try_add_shared_ref_quiet[OF b no_interference_replicate])
  qed
qed

lemma expired_after_op:
  assumes "wp_ctrl_block w = Some cb" and "cb_inv cb s k st"
    and "0 < s" and "0 < k" and "s + 1 < 2 ^ 64"
  shows "weak_ptr_expired w (apply_op cb x st) = Some (x = Release_shared \<and> s = 1)"
proof -
  note sv = block_survives[OF assms(2,3,4), of x]
  show ?thesis
  proof (cases x)
    case Add_shared_ref
    have "cb_inv cb (s + 1) k (apply_op cb x st)"
      using add_shared_ref_inv[OF assms(2,3,5)] Add_shared_ref by simp
    from weak_ptr_expired_inv[OF assms(1) this sv] Add_shared_ref show ?thesis by simp
  next
    case Release_shared
    have "cb_inv cb (s - 1) k (apply_op cb x st)"
      using release_shared_inv[OF assms(2,3)] Release_shared by simp
    from weak_ptr_expired_inv[OF assms(1) this sv] Release_shared assms(3) show ?thesis
      by auto
  next
    case Add_weak_ref
    from assms(2,3) obtain b where b: "blocks st cb = Some b" and "unat (shared_count b) = s"
      by (auto simp: cb_inv_def split: option.splits)
    with assms(3) have nz: "shared_count b \<noteq> 0" by auto
    have "blocks (add_weak_ref cb st) cb = Some (b\<lparr>weak_count := weak_count b + 1\<rparr>)"
      using b by (simp add: add_weak_ref_def)
    from weak_ptr_expired_block[OF assms(1) this] nz Add_weak_ref show ?thesis by simp
  next
    case Release_weak
    have "cb_inv cb s (k - 1) (apply_op cb x st)"
      using release_weak_inv[OF assms(2,4)] Release_weak by simp
    from weak_ptr_expired_inv[OF assms(1) this sv] Release_weak assms(3) show ?thesis by simp
  next
    case (Try_add_shared_ref n)
    obtain ok st' where t: "try_add_shared_ref cb (replicate n Spurious) st = (ok, st')"
      by (cases "try_add_shared_ref cb (replicate n Spurious) st") auto
    have "cb_inv cb (if ok then s + 1 else s) k (apply_op cb x st)"
      using try_add_shared_ref_inv[OF assms(2,5) t] Try_add_shared_ref t by simp
    from weak_ptr_expired_inv[OF assms(1) this sv] Try_add_shared_ref assms(3) show ?thesis
      by simp
  qed
qed


text \<open>
  C7. \<^verbatim>\<open>expired()\<close> is true exactly when \<^verbatim>\<open>use_count()\<close> is 0, and an empty weak pointer
  counts 0. Let a weak pointer be one of \<open>k > 0\<close> weak references to a block with \<open>s > 0\<close>
  strong references outstanding (and room for one more). It is not expired; after any one
  call on the block it is expired exactly when the call was \<^verbatim>\<open>release_shared\<close> and \<open>s\<close> was
  1; so after destroying a shared pointer to the block, or resetting a variable that holds
  one, it is expired exactly when that was the last shared pointer.
\<close>

theorem expired_exactly_after_last_release:
  assumes "wp_ctrl_block w = Some cb" and "cb_inv cb s k st"
    and "0 < s" and "0 < k" and "s + 1 < 2 ^ 64"
  shows "(weak_ptr_expired w' st' = Some True) = (weak_ptr_use_count w' st' = Some 0)
       \<and> weak_ptr_use_count weak_ptr_default st' = Some 0
       \<and> weak_ptr_expired w st = Some False
       \<and> (\<forall>x. weak_ptr_expired w (apply_op cb x st) = Some (x = Release_shared \<and> s = 1))
       \<and> (\<forall>h. sp_ctrl_block h = Some cb \<longrightarrow>
             weak_ptr_expired w (shared_ptr_dtor h st) = Some (s = 1))
       \<and> (\<forall>x. sp_ctrl_block (sps st x) = Some cb \<longrightarrow>
             weak_ptr_expired w (shared_ptr_reset x st) = Some (s = 1))"
proof -
  have 1: "(weak_ptr_expired w' st' = Some True) = (weak_ptr_use_count w' st' = Some 0)"
    by (cases "weak_ptr_use_count w' st'") (auto simp: weak_ptr_expired_def)
  have 2: "weak_ptr_use_count weak_ptr_default st' = Some 0"
    by (simp add: weak_ptr_use_count_def weak_ptr_default_def)
  from assms(2,3) have ex: "blocks st cb \<noteq> None"
    by (auto simp: cb_inv_def split: option.splits)
  have 3: "weak_ptr_expired w st = Some False"
    using weak_ptr_expired_inv[OF assms(1,2) ex] assms(3) by simp
  have 4: "\<forall>x. weak_ptr_expired w (apply_op cb x st) = Some (x = Release_shared \<and> s = 1)"
    using expired_after_op[OF assms] by blast
  have r: "weak_ptr_expired w (release_shared cb st) = Some (s = 1)"
    using expired_after_op[OF assms, of Release_shared] by simp
  have 5: "\<forall>h. sp_ctrl_block h = Some cb \<longrightarrow>
             weak_ptr_expired w (shared_ptr_dtor h st) = Some (s = 1)"
    using r by (simp add: shared_ptr_dtor_def)
  have 6: "\<forall>x. sp_ctrl_block (sps st x) = Some cb \<longrightarrow>
             weak_ptr_expired w (shared_ptr_reset x st) = Some (s = 1)"
    using r
    by (simp add: shared_ptr_reset_def shared_ptr_swap_def release_shared_sps_update
        shared_ptr_dtor_def)
  from 1 2 3 4 5 6 show ?thesis by blast
qed

lemma observed_state_inv: "cb_inv 1 1 1 observed_state"
  by (simp add: observed_state_eq cb_inv_def teardown_def)

theorem expired_exactly_after_last_release_witness:
  "wp_ctrl_block (weak_ptr (Some 1) (Some 1)) = Some 1
   \<and> cb_inv 1 1 1 observed_state
   \<and> (0::nat) < 1 \<and> (1::nat) + 1 < 2 ^ 64
   \<and> sp_ctrl_block (shared_ptr (Some 1) (Some 1)) = Some 1
   \<and> weak_ptr_expired (weak_ptr (Some 1) (Some 1)) observed_state = Some False
   \<and> weak_ptr_expired (weak_ptr (Some 1) (Some 1))
        (shared_ptr_dtor (shared_ptr (Some 1) (Some 1)) observed_state) = Some True
   \<and> weak_ptr_expired (weak_ptr (Some 1) (Some 1))
        (apply_op 1 Add_shared_ref observed_state) = Some False"
proof -
  have a: "wp_ctrl_block (weak_ptr (Some 1) (Some 1)) = Some 1" by simp
  have c: "(0::nat) < 1" by simp
  have d: "(1::nat) + 1 < 2 ^ 64" by simp
  have e: "sp_ctrl_block (shared_ptr (Some 1) (Some 1)) = Some 1" by simp
  note t = expired_exactly_after_last_release[OF a observed_state_inv c c d]
  from t have 1: "weak_ptr_expired (weak_ptr (Some 1) (Some 1)) observed_state = Some False"
    by blast
  from t e have 2: "weak_ptr_expired (weak_ptr (Some 1) (Some 1))
        (shared_ptr_dtor (shared_ptr (Some 1) (Some 1)) observed_state) = Some (1 = (1::nat))"
    by blast
  from t have 3: "weak_ptr_expired (weak_ptr (Some 1) (Some 1))
        (apply_op 1 Add_shared_ref observed_state) = Some (Add_shared_ref = Release_shared \<and> 1 = (1::nat))"
    by blast
  from a observed_state_inv c d e 1 2 3 show ?thesis by simp
qed

section \<open>Teardown along a sequence of calls\<close>

lemma dispose_log:
  assumes "blocks st this = Some cb"
  shows "\<exists>evs. log (dispose this st) = log st @ Dispose this # evs \<and> UseAfterFree a \<notin> set evs"
proof (cases "variant cb")
  case (separate_control_block p d)
  with assms show ?thesis
    by (cases p; cases d) (simp_all add: dispose_def emit_def put_block_def call_deleter_def)
next
  case inline_control_block
  with assms show ?thesis by (simp add: dispose_def emit_def)
qed

lemma release_weak_log:
  assumes "blocks st this = Some cb"
  shows "\<exists>evs. log (release_weak this st) = log st @ evs \<and> UseAfterFree a \<notin> set evs"
  using assms
  by (cases "weak_count cb = 1") (simp_all add: release_weak_def destroy_def emit_def Let_def)

lemma release_weak_block:
  assumes "blocks st this = Some cb"
  shows "blocks (release_weak this st) this =
           (if weak_count cb = 1 then None else Some (cb\<lparr>weak_count := weak_count cb - 1\<rparr>))"
  using assms by (simp add: release_weak_def destroy_def emit_def Let_def)

lemma release_shared_log:
  assumes "blocks st this = Some cb"
  shows "(shared_count cb = 1 \<longrightarrow>
            (\<exists>evs. log (release_shared this st) = log st @ Dispose this # evs
                   \<and> UseAfterFree a \<notin> set evs))
       \<and> (shared_count cb \<noteq> 1 \<longrightarrow> log (release_shared this st) = log st)"
proof (cases "shared_count cb = 1")
  case True
  let ?st1 = "put_block this (cb\<lparr>shared_count := 0\<rparr>) st"
  have b1: "blocks ?st1 this = Some (cb\<lparr>shared_count := 0\<rparr>)" by simp
  from dispose_log[OF b1, of a] obtain evs where
    d: "log (dispose this ?st1) = log st @ Dispose this # evs" and n: "UseAfterFree a \<notin> set evs"
    by auto
  from dispose_effect[OF b1] obtain v where
    b2: "blocks (dispose this ?st1) this = Some (cb\<lparr>shared_count := 0, variant := v\<rparr>)" by auto
  from release_weak_log[OF b2, of a] obtain evs' where
    r: "log (release_weak this (dispose this ?st1)) = log (dispose this ?st1) @ evs'"
    and n': "UseAfterFree a \<notin> set evs'" by auto
  have "release_shared this st = release_weak this (dispose this ?st1)"
    using assms True by (simp add: release_shared_def)
  with d r have "log (release_shared this st) = log st @ Dispose this # (evs @ evs')" by simp
  with n n' True show ?thesis by auto
next
  case False
  with assms show ?thesis by (simp add: release_shared_def)
qed

lemma release_shared_block:
  assumes "blocks st this = Some cb" and "blocks (release_shared this st) this = None"
  shows "shared_count cb = 1 \<and> weak_count cb = 1"
proof (cases "shared_count cb = 1")
  case True
  let ?st1 = "put_block this (cb\<lparr>shared_count := 0\<rparr>) st"
  have b1: "blocks ?st1 this = Some (cb\<lparr>shared_count := 0\<rparr>)" by simp
  from dispose_effect[OF b1] obtain v where
    b2: "blocks (dispose this ?st1) this = Some (cb\<lparr>shared_count := 0, variant := v\<rparr>)" by auto
  have "release_shared this st = release_weak this (dispose this ?st1)"
    using assms(1) True by (simp add: release_shared_def)
  with assms(2) release_weak_block[OF b2] True show ?thesis by (auto split: if_splits)
next
  case False
  with assms show ?thesis by (simp add: release_shared_def)
qed

text \<open>The facts that go with \<open>cb_inv\<close> along a run of calls made by holders.\<close>

lemma holder_step:
  assumes inv: "cb_inv this s w st" and b: "blocks st this = Some cb"
    and u: "UseAfterFree this \<notin> set (log st)"
  shows "UseAfterFree this \<notin> set (log (add_shared_ref this st))
       \<and> blocks (add_shared_ref this st) this \<noteq> None"
    and "UseAfterFree this \<notin> set (log (add_weak_ref this st))
       \<and> blocks (add_weak_ref this st) this \<noteq> None"
    and "UseAfterFree this \<notin> set (log (snd (try_add_shared_ref this (replicate n Spurious) st)))
       \<and> blocks (snd (try_add_shared_ref this (replicate n Spurious) st)) this \<noteq> None"
    and "0 < w \<Longrightarrow> UseAfterFree this \<notin> set (log (release_weak this st))
       \<and> (blocks (release_weak this st) this = None \<longrightarrow> w = 1)"
    and "0 < s \<Longrightarrow> UseAfterFree this \<notin> set (log (release_shared this st))
       \<and> (blocks (release_shared this st) this = None \<longrightarrow> w = 0)"
proof -
  show "UseAfterFree this \<notin> set (log (add_shared_ref this st))
       \<and> blocks (add_shared_ref this st) this \<noteq> None"
    using b u by (simp add: add_shared_ref_def)
  show "UseAfterFree this \<notin> set (log (add_weak_ref this st))
       \<and> blocks (add_weak_ref this st) this \<noteq> None"
    using b u by (simp add: add_weak_ref_def)
  show "UseAfterFree this \<notin> set (log (snd (try_add_shared_ref this (replicate n Spurious) st)))
       \<and> blocks (snd (try_add_shared_ref this (replicate n Spurious) st)) this \<noteq> None"
    using b u by (simp add: try_add_shared_ref_quiet[OF b no_interference_replicate])
  from inv b have wc: "unat (weak_count cb) = w + (if 0 < s then 1 else 0)"
    by (simp add: cb_inv_def)
  show "UseAfterFree this \<notin> set (log (release_weak this st))
       \<and> (blocks (release_weak this st) this = None \<longrightarrow> w = 1)" if "0 < w"
  proof -
    from release_weak_log[OF b, of this] u
    have 1: "UseAfterFree this \<notin> set (log (release_weak this st))" by auto
    have 2: "w = 1" if "blocks (release_weak this st) this = None"
    proof -
      from that release_weak_block[OF b] have "weak_count cb = 1" by (auto split: if_splits)
      then have "unat (weak_count cb) = 1" by simp
      with wc \<open>0 < w\<close> show ?thesis by (cases "0 < s") simp_all
    qed
    from 1 2 show ?thesis by blast
  qed
  show "UseAfterFree this \<notin> set (log (release_shared this st))
       \<and> (blocks (release_shared this st) this = None \<longrightarrow> w = 0)" if "0 < s"
  proof -
    from release_shared_log[OF b, of this] u
    have 1: "UseAfterFree this \<notin> set (log (release_shared this st))"
      by (cases "shared_count cb = 1") auto
    have 2: "w = 0" if "blocks (release_shared this st) this = None"
    proof -
      from release_shared_block[OF b that] have "unat (weak_count cb) = 1" by simp
      with wc \<open>0 < s\<close> show ?thesis by simp
    qed
    from 1 2 show ?thesis by blast
  qed
qed


lemma run_holders:
  "cb_inv this s w st \<Longrightarrow> (blocks st this = None \<longrightarrow> w = 0) \<Longrightarrow>
   UseAfterFree this \<notin> set (log st) \<Longrightarrow> calls_by_holders this s w ops st \<Longrightarrow>
   s + length ops < 2 ^ 64 \<Longrightarrow> w + 1 + length ops < 2 ^ 64 \<Longrightarrow>
   \<exists>s' w'. cb_inv this s' w' (run this ops st)
          \<and> UseAfterFree this \<notin> set (log (run this ops st))"
proof (induction ops arbitrary: s w st)
  case Nil
  then show ?case by auto
next
  case (Cons x xs)
  have held: "0 < s \<or> 0 < w"
    using Cons.prems(4) by (cases x) auto
  obtain cb where b: "blocks st this = Some cb"
  proof (cases "blocks st this")
    case None
    with Cons.prems(1,2) have "s = 0 \<and> w = 0" by (simp add: cb_inv_def)
    with held show ?thesis by simp
  next
    case (Some cb)
    with that show ?thesis .
  qed
  note hs = holder_step[OF Cons.prems(1) b Cons.prems(3)]
  show ?case
  proof (cases x)
    case Add_shared_ref
    let ?st = "add_shared_ref this st"
    from Cons.prems Add_shared_ref have i: "cb_inv this (s + 1) w ?st"
      by (intro add_shared_ref_inv) auto
    have n: "blocks ?st this = None \<longrightarrow> w = 0" using hs(1) by auto
    have u: "UseAfterFree this \<notin> set (log ?st)" using hs(1) by simp
    have c: "calls_by_holders this (s + 1) w xs ?st"
      using Cons.prems(4) Add_shared_ref by simp
    from Cons.IH[OF i n u c] Cons.prems(5,6) Add_shared_ref show ?thesis by simp
  next
    case Release_shared
    let ?st = "release_shared this st"
    from Cons.prems Release_shared have s: "0 < s" by simp
    with Cons.prems have i: "cb_inv this (s - 1) w ?st"
      by (intro release_shared_inv) auto
    have n: "blocks ?st this = None \<longrightarrow> w = 0" using hs(5)[OF s] by auto
    have u: "UseAfterFree this \<notin> set (log ?st)" using hs(5)[OF s] by simp
    have c: "calls_by_holders this (s - 1) w xs ?st"
      using Cons.prems(4) Release_shared by simp
    from Cons.IH[OF i n u c] Cons.prems(5,6) Release_shared show ?thesis by simp
  next
    case Add_weak_ref
    let ?st = "add_weak_ref this st"
    from Cons.prems Add_weak_ref have i: "cb_inv this s (w + 1) ?st"
      by (intro add_weak_ref_inv) auto
    have n: "blocks ?st this = None \<longrightarrow> w + 1 = 0" using hs(2) by auto
    have u: "UseAfterFree this \<notin> set (log ?st)" using hs(2) by simp
    have c: "calls_by_holders this s (w + 1) xs ?st"
      using Cons.prems(4) Add_weak_ref by simp
    from Cons.IH[OF i n u c] Cons.prems(5,6) Add_weak_ref show ?thesis by simp
  next
    case Release_weak
    let ?st = "release_weak this st"
    from Cons.prems Release_weak have w: "0 < w" by simp
    with Cons.prems have i: "cb_inv this s (w - 1) ?st"
      by (intro release_weak_inv) auto
    have n: "blocks ?st this = None \<longrightarrow> w - 1 = 0" using hs(4)[OF w] by auto
    have u: "UseAfterFree this \<notin> set (log ?st)" using hs(4)[OF w] by simp
    have c: "calls_by_holders this s (w - 1) xs ?st"
      using Cons.prems(4) Release_weak by simp
    from Cons.IH[OF i n u c] Cons.prems(5,6) Release_weak show ?thesis by simp
  next
    case (Try_add_shared_ref n)
    obtain ok st' where t: "try_add_shared_ref this (replicate n Spurious) st = (ok, st')"
      by (cases "try_add_shared_ref this (replicate n Spurious) st") auto
    from Cons.prems have i: "cb_inv this (if ok then s + 1 else s) w st'"
      by (intro try_add_shared_ref_inv[OF _ _ t]) auto
    have e: "blocks st' this = None \<longrightarrow> w = 0" using hs(3)[of n] t by auto
    have u: "UseAfterFree this \<notin> set (log st')" using hs(3)[of n] t by simp
    have c: "calls_by_holders this (if ok then s + 1 else s) w xs st'"
      using Cons.prems(4) Try_add_shared_ref t by simp
    from Cons.IH[OF i e u c] Cons.prems(5,6) Try_add_shared_ref t show ?thesis
      by (simp split: if_splits)
  qed
qed

lemma count_list_teardown:
  "x = Dispose this \<or> x = Destroy this \<Longrightarrow>
   count_list (log st) x = count_list (teardown this st) x"
  by (auto simp: teardown_def count_list_eq_length_filter filter_filter intro: arg_cong[where f = length] filter_cong)

lemma teardown_shapes:
  assumes "cb_inv this s w st"
  shows "teardown this st \<in> {[], [Dispose this], [Dispose this, Destroy this]}"
  using assms by (auto simp: cb_inv_def split: option.splits if_splits)

lemma teardown_order:
  assumes "teardown this st \<in> {[], [Dispose this], [Dispose this, Destroy this]}"
    and "log st = pre @ Destroy this # post"
  shows "Dispose this \<in> set pre"
proof -
  let ?f = "filter (\<lambda>e. e = Dispose this \<or> e = Destroy this)"
  have "teardown this st = ?f pre @ Destroy this # ?f post"
    using assms(2) by (simp add: teardown_def)
  with assms(1) have
    "?f pre @ Destroy this # ?f post \<in> {[], [Dispose this], [Dispose this, Destroy this]}"
    by simp
  then have "?f pre = [Dispose this]"
    by (auto simp: append_eq_Cons_conv)
  then have "Dispose this \<in> set (?f pre)" by simp
  then show ?thesis by simp
qed

text \<open>
  C1. Take a block that has just been constructed (both counters 1, nothing torn down) and
  any sequence of fewer than \<open>2^64 - 1\<close> calls on it in which every call is made by the
  holder of a reference: \<^verbatim>\<open>add_shared_ref\<close> and \<^verbatim>\<open>release_shared\<close> while a strong reference
  is outstanding, \<^verbatim>\<open>release_weak\<close> giving back a weak reference acquired before,
  \<^verbatim>\<open>add_weak_ref\<close> and \<^verbatim>\<open>try_add_shared_ref\<close> while some reference is outstanding. Then
  \<^verbatim>\<open>dispose()\<close> is called at most once, \<^verbatim>\<open>destroy()\<close> at most once, and \<^verbatim>\<open>destroy()\<close> only after
  \<^verbatim>\<open>dispose()\<close>; and no call reaches the block after it was destroyed. A \<^verbatim>\<open>release_shared\<close>
  that reads 1 stores 0, calls \<^verbatim>\<open>dispose()\<close> and then \<^verbatim>\<open>release_weak()\<close>, so that its first
  entry in the log is the call of \<^verbatim>\<open>dispose()\<close>; one that reads another value only stores
  the decrement and logs nothing.
\<close>

theorem teardown_once_and_in_order:
  assumes "blocks st this = Some (control_block_base_ctor v)"
    and "teardown this st = []"
    and "UseAfterFree this \<notin> set (log st)"
    and "calls_by_holders this 1 0 ops st"
    and "length ops + 1 < 2 ^ 64"
  shows "count_list (log (run this ops st)) (Dispose this) \<le> 1
       \<and> count_list (log (run this ops st)) (Destroy this) \<le> 1
       \<and> (\<forall>pre post. log (run this ops st) = pre @ Destroy this # post \<longrightarrow> Dispose this \<in> set pre)
       \<and> UseAfterFree this \<notin> set (log (run this ops st))
       \<and> (\<forall>st1 cb1. blocks st1 this = Some cb1 \<longrightarrow>
             release_shared this st1 =
               (if shared_count cb1 = 1
                then release_weak this (dispose this (put_block this (cb1\<lparr>shared_count := 0\<rparr>) st1))
                else put_block this (cb1\<lparr>shared_count := shared_count cb1 - 1\<rparr>) st1)
           \<and> (shared_count cb1 = 1 \<longrightarrow>
                 (\<exists>evs. log (release_shared this st1) = log st1 @ Dispose this # evs))
           \<and> (shared_count cb1 \<noteq> 1 \<longrightarrow> log (release_shared this st1) = log st1))"
proof -
  have i: "cb_inv this 1 0 st"
    using assms(1,2) by (simp add: cb_inv_def control_block_base_ctor_def)
  have n: "blocks st this = None \<longrightarrow> (0::nat) = 0" by simp
  from run_holders[OF i n assms(3,4)] assms(5)
  obtain s' w' where "cb_inv this s' w' (run this ops st)"
    and 4: "UseAfterFree this \<notin> set (log (run this ops st))" by auto
  then have sh: "teardown this (run this ops st) \<in> {[], [Dispose this], [Dispose this, Destroy this]}"
    by (intro teardown_shapes)
  have 1: "count_list (log (run this ops st)) (Dispose this) \<le> 1"
    using sh by (auto simp: count_list_teardown[of _ this])
  have 2: "count_list (log (run this ops st)) (Destroy this) \<le> 1"
    using sh by (auto simp: count_list_teardown[of _ this])
  have 3: "\<forall>pre post. log (run this ops st) = pre @ Destroy this # post \<longrightarrow> Dispose this \<in> set pre"
    using teardown_order[OF sh] by blast
  have 5: "\<forall>st1 cb1. blocks st1 this = Some cb1 \<longrightarrow>
             release_shared this st1 =
               (if shared_count cb1 = 1
                then release_weak this (dispose this (put_block this (cb1\<lparr>shared_count := 0\<rparr>) st1))
                else put_block this (cb1\<lparr>shared_count := shared_count cb1 - 1\<rparr>) st1)
           \<and> (shared_count cb1 = 1 \<longrightarrow>
                 (\<exists>evs. log (release_shared this st1) = log st1 @ Dispose this # evs))
           \<and> (shared_count cb1 \<noteq> 1 \<longrightarrow> log (release_shared this st1) = log st1)"
  proof (intro allI impI)
    fix st1 :: state and cb1 assume b: "blocks st1 this = Some cb1"
    have "release_shared this st1 =
               (if shared_count cb1 = 1
                then release_weak this (dispose this (put_block this (cb1\<lparr>shared_count := 0\<rparr>) st1))
                else put_block this (cb1\<lparr>shared_count := shared_count cb1 - 1\<rparr>) st1)"
      using b by (simp add: release_shared_def)
    moreover from release_shared_log[OF b, of this]
    have "(shared_count cb1 = 1 \<longrightarrow>
                 (\<exists>evs. log (release_shared this st1) = log st1 @ Dispose this # evs))
           \<and> (shared_count cb1 \<noteq> 1 \<longrightarrow> log (release_shared this st1) = log st1)"
      by blast
    ultimately show "release_shared this st1 =
               (if shared_count cb1 = 1
                then release_weak this (dispose this (put_block this (cb1\<lparr>shared_count := 0\<rparr>) st1))
                else put_block this (cb1\<lparr>shared_count := shared_count cb1 - 1\<rparr>) st1)
           \<and> (shared_count cb1 = 1 \<longrightarrow>
                 (\<exists>evs. log (release_shared this st1) = log st1 @ Dispose this # evs))
           \<and> (shared_count cb1 \<noteq> 1 \<longrightarrow> log (release_shared this st1) = log st1)"
      by blast
  qed
  from 1 2 3 4 5 show ?thesis by blast
qed

theorem teardown_once_and_in_order_witness:
  "blocks fresh_state 1 = Some (control_block_base_ctor inline_control_block)
   \<and> teardown 1 fresh_state = []
   \<and> UseAfterFree 1 \<notin> set (log fresh_state)
   \<and> calls_by_holders 1 1 0
        [Add_weak_ref, Add_shared_ref, Try_add_shared_ref 2, Release_shared, Release_shared,
         Release_shared, Try_add_shared_ref 0, Release_weak] fresh_state
   \<and> log (run 1 [Add_weak_ref, Add_shared_ref, Try_add_shared_ref 2, Release_shared, Release_shared,
         Release_shared, Try_add_shared_ref 0, Release_weak] fresh_state)
       = [Dispose 1, Dtor 1, Destroy 1]
   \<and> count_list (log (run 1 [Add_weak_ref, Add_shared_ref, Try_add_shared_ref 2, Release_shared,
         Release_shared, Release_shared, Try_add_shared_ref 0, Release_weak] fresh_state)) (Dispose 1) \<le> 1
   \<and> UseAfterFree 1 \<notin> set (log (run 1 [Add_weak_ref, Add_shared_ref, Try_add_shared_ref 2,
         Release_shared, Release_shared, Release_shared, Try_add_shared_ref 0, Release_weak]
         fresh_state))"
proof -
  let ?ops = "[Add_weak_ref, Add_shared_ref, Try_add_shared_ref 2, Release_shared, Release_shared,
         Release_shared, Try_add_shared_ref 0, Release_weak]"
  have a: "blocks fresh_state 1 = Some (control_block_base_ctor inline_control_block)"
    by code_simp
  have b: "teardown 1 fresh_state = []" by code_simp
  have u: "UseAfterFree 1 \<notin> set (log fresh_state)" by code_simp
  have c: "calls_by_holders 1 1 0 ?ops fresh_state" by code_simp
  have d: "length ?ops + 1 < 2 ^ 64" by simp
  have e: "log (run 1 ?ops fresh_state) = [Dispose 1, Dtor 1, Destroy 1]" by code_simp
  show ?thesis
    using teardown_once_and_in_order[OF a b u c d] a b u c e by blast
qed

text \<open>
  With releases covered by acquisitions alone the property fails: a weak reference keeps
  the block, the strong count drops to zero, \<^verbatim>\<open>add_shared_ref\<close> raises it to one again, and
  the next release disposes a second time. Every call of this sequence is made while the
  block exists.
\<close>

theorem double_dispose_counterexample:
  "blocks fresh_state 1 = Some (control_block_base_ctor inline_control_block)
   \<and> teardown 1 fresh_state = []
   \<and> releases_covered 1 1 0
        [Add_weak_ref, Release_shared, Add_shared_ref, Release_shared] fresh_state
   \<and> log (run 1 [Add_weak_ref, Release_shared, Add_shared_ref, Release_shared] fresh_state)
       = [Dispose 1, Dtor 1, Dispose 1, Dtor 1, Destroy 1]
   \<and> count_list (log (run 1 [Add_weak_ref, Release_shared, Add_shared_ref, Release_shared]
        fresh_state)) (Dispose 1) = 2
   \<and> \<not> count_list (log (run 1 [Add_weak_ref, Release_shared, Add_shared_ref, Release_shared]
        fresh_state)) (Dispose 1) \<le> 1"
  by code_simp

text \<open>
  Covered releases do not keep the calls off a destroyed block either: after the last
  strong reference is released the block is destroyed, and an \<^verbatim>\<open>add_weak_ref\<close> with its
  \<^verbatim>\<open>release_weak\<close> then reach freed memory. \<open>calls_by_holders\<close> excludes this sequence.
\<close>

lemma calls_after_destroy:
  "releases_covered 1 1 0 [Release_shared, Add_weak_ref, Release_weak] fresh_state
   \<and> \<not> calls_by_holders 1 1 0 [Release_shared, Add_weak_ref, Release_weak] fresh_state
   \<and> log (run 1 [Release_shared, Add_weak_ref, Release_weak] fresh_state)
       = [Dispose 1, Dtor 1, Destroy 1, UseAfterFree 1, UseAfterFree 1]"
  by code_simp

section \<open>Properties of the failure paths\<close>

lemma alloc_then_free:
  assumes "a \<notin> allocated st" and "blocks st a = None"
  shows "operator_delete a
           (snd (inline_control_block_ctor a (Some e) (snd (operator_new (Some a) st)))) = st"
proof -
  have "insert a (allocated st) - {a} = allocated st" using assms(1) by auto
  moreover have "(blocks st)(a := None) = blocks st" using assms(2) by (simp add: fun_upd_idem)
  ultimately show ?thesis
    by (simp add: operator_delete_def inline_control_block_ctor_def operator_new_def
        put_block_def)
qed

text \<open>
  What \<^verbatim>\<open>make_shared\<close> and \<^verbatim>\<open>allocate_shared\<close> do on failure: they fail only when the
  allocation fails or the constructor of the object throws, the caller gets that very
  exception, and the storage that was obtained is not allocated any more and holds no
  block; when the allocator had handed out fresh storage the state is the one before the
  call.
\<close>

lemma failed_make_shared_releases_storage:
  "make_shared None ctor st = (Inl bad_alloc, st)
   \<and> allocate_shared None ctor st = (Inl bad_alloc, st)
   \<and> fst (make_shared (Some a) (Some e) st) = Inl (thrown e)
   \<and> fst (allocate_shared (Some a) (Some e) st) = Inl (thrown e)
   \<and> a \<notin> allocated (snd (make_shared (Some a) (Some e) st))
   \<and> blocks (snd (make_shared (Some a) (Some e) st)) a = None
   \<and> a \<notin> allocated (snd (allocate_shared (Some a) (Some e) st))
   \<and> blocks (snd (allocate_shared (Some a) (Some e) st)) a = None
   \<and> (a \<notin> allocated st \<and> blocks st a = None \<longrightarrow>
        make_shared (Some a) (Some e) st = (Inl (thrown e), st)
      \<and> allocate_shared (Some a) (Some e) st = (Inl (thrown e), st))
   \<and> ((\<exists>err. fst (make_shared alloc ctor st) = Inl err) = (alloc = None \<or> ctor \<noteq> None))
   \<and> ((\<exists>err. fst (allocate_shared alloc ctor st) = Inl err) = (alloc = None \<or> ctor \<noteq> None))"
proof -
  have 1: "make_shared None ctor st = (Inl bad_alloc, st)"
    by (simp add: make_shared_def make_inline_control_block_def operator_new_def)
  have 2: "allocate_shared None ctor st = (Inl bad_alloc, st)"
    by (simp add: allocate_shared_def operator_new_def)
  have m: "make_shared (Some a) (Some e) st =
            (Inl (thrown e), operator_delete a
               (snd (inline_control_block_ctor a (Some e) (snd (operator_new (Some a) st)))))"
    by (simp add: make_shared_def make_inline_control_block_def operator_new_def
        inline_control_block_ctor_def)
  have al: "allocate_shared (Some a) (Some e) st =
            (Inl (thrown e), operator_delete a
               (snd (inline_control_block_ctor a (Some e) (snd (operator_new (Some a) st)))))"
    by (simp add: allocate_shared_def operator_new_def inline_control_block_ctor_def)
  have g: "a \<notin> allocated (operator_delete a
               (snd (inline_control_block_ctor a (Some e) (snd (operator_new (Some a) st)))))
         \<and> blocks (operator_delete a
               (snd (inline_control_block_ctor a (Some e) (snd (operator_new (Some a) st))))) a = None"
    by (simp add: operator_delete_def inline_control_block_ctor_def operator_new_def put_block_def)
  have 3: "a \<notin> allocated st \<and> blocks st a = None \<longrightarrow>
        make_shared (Some a) (Some e) st = (Inl (thrown e), st)
      \<and> allocate_shared (Some a) (Some e) st = (Inl (thrown e), st)"
    using alloc_then_free[of a st e] by (simp add: m al)
  have 7: "(\<exists>err. fst (make_shared alloc ctor st) = Inl err) = (alloc = None \<or> ctor \<noteq> None)"
    by (cases alloc; cases ctor)
       (simp_all add: make_shared_def make_inline_control_block_def operator_new_def
          inline_control_block_ctor_def)
  have 8: "(\<exists>err. fst (allocate_shared alloc ctor st) = Inl err) = (alloc = None \<or> ctor \<noteq> None)"
    by (cases alloc; cases ctor)
       (simp_all add: allocate_shared_def operator_new_def inline_control_block_ctor_def)
  from 1 2 3 7 8 g show ?thesis by (simp add: m al)
qed

text \<open>
  C6. A failure inside \<^verbatim>\<open>make_shared\<close>, \<^verbatim>\<open>allocate_shared\<close> or the construction from a raw
  pointer is to reach the caller with everything obtained before it released, the adopted
  object included. The construction from a raw pointer does not do that. With the object
  at address 5 allocated by the caller and the allocation of the control block failing,
  \<^verbatim>\<open>shared_ptr(U *ptr)\<close> and \<^verbatim>\<open>reset(U *ptr)\<close> pass \<^verbatim>\<open>bad_alloc\<close> on, the deleter has not been
  called (the log is empty), the object is still allocated, and no handle owns it: the
  variable that was to be reset is as empty as before.
\<close>

theorem adopted_object_leaks_on_bad_alloc:
  "5 \<in> allocated adopting_state
   \<and> fst (shared_ptr_raw None (Some 5) adopting_state) = Inl bad_alloc
   \<and> 5 \<in> allocated (snd (shared_ptr_raw None (Some 5) adopting_state))
   \<and> log (snd (shared_ptr_raw None (Some 5) adopting_state)) = []
   \<and> fst (shared_ptr_reset_raw None 0 (Some 5) adopting_state) = Inl bad_alloc
   \<and> 5 \<in> allocated (snd (shared_ptr_reset_raw None 0 (Some 5) adopting_state))
   \<and> log (snd (shared_ptr_reset_raw None 0 (Some 5) adopting_state)) = []
   \<and> sps (snd (shared_ptr_reset_raw None 0 (Some 5) adopting_state)) 0 = shared_ptr None None"
  by code_simp

end
